theory Spec2Isabelle
  imports Main "HOL-Library.Sublist"
begin

section \<open>Strings of the page scripts\<close>

text \<open>
  The scripts compare paths and language tags with ASCII literals only, so a script
  string is modelled as a \<open>string\<close> (a list of characters).  The string methods the
  scripts call are written out below under their own names.
\<close>

definition startsWith :: "string \<Rightarrow> string \<Rightarrow> bool" where
  \<comment> \<open>\<open>s.startsWith(p)\<close>\<close>
  "startsWith s p = (take (length p) s = p)"

definition substring :: "string \<Rightarrow> nat \<Rightarrow> string" where
  \<comment> \<open>\<open>s.substring(n)\<close>: the rest of the string from index \<open>n\<close>, empty past the end\<close>
  "substring s n = drop n s"

fun includes_str :: "string \<Rightarrow> string \<Rightarrow> bool" where
  \<comment> \<open>\<open>s.includes(t)\<close>: \<open>t\<close> occurs in \<open>s\<close> at some position\<close>
  "includes_str [] t = (t = [])"
| "includes_str (c # cs) t = (startsWith (c # cs) t \<or> includes_str cs t)"

fun replace_first :: "string \<Rightarrow> string \<Rightarrow> string \<Rightarrow> string" where
  \<comment> \<open>\<open>s.replace(pat, rep)\<close> with a string pattern: only the first occurrence\<close>
  "replace_first [] pat rep = (if pat = [] then rep else [])"
| "replace_first (c # cs) pat rep =
     (if startsWith (c # cs) pat then rep @ drop (length pat) (c # cs)
      else c # replace_first cs pat rep)"

definition toLowerChar :: "char \<Rightarrow> char" where
  "toLowerChar c =
     (let n = (of_char c :: nat) in if 65 \<le> n \<and> n \<le> 90 then char_of (n + 32) else c)"

definition toLowerCase :: "string \<Rightarrow> string" where
  \<comment> \<open>\<open>s.toLowerCase()\<close> on the letters A to Z\<close>
  "toLowerCase s = map toLowerChar s"

fun truthy :: "string option \<Rightarrow> bool" where
  \<comment> \<open>the truth value of a string-or-null in a condition: \<open>null\<close> and the empty string are false\<close>
  "truthy None = False"
| "truthy (Some s) = (s \<noteq> [])"

definition js_or :: "string option \<Rightarrow> string option \<Rightarrow> string option" where
  \<comment> \<open>\<open>a || b\<close>\<close>
  "js_or a b = (if truthy a then a else b)"


section \<open>The browser state read and written by the i18n module\<close>

datatype thrown =
    TransportError     \<comment> \<open>the rejection of \<open>fetch\<close> or of \<open>response.text()\<close>\<close>
  | HttpError nat      \<comment> \<open>\<open>new Error(`HTTP ${response.status}`)\<close>\<close>

datatype warning =
    UnsupportedLanguage string   \<comment> \<open>\<open>`Unsupported language: ${targetLang}`\<close>\<close>
  | ComponentNotFound string     \<comment> \<open>\<open>`Component "${name}" not found`\<close>\<close>
  | PlaceholderNotFound string   \<comment> \<open>\<open>`Placeholder "${component.selector}" not found`\<close>\<close>

datatype event =
    Warn warning             \<comment> \<open>\<open>console.warn(message)\<close>\<close>
  | Error string thrown      \<comment> \<open>\<open>console.error(`Failed to load component "${name}":`, error)\<close>\<close>
  | Fetch string             \<comment> \<open>\<open>fetch(url)\<close> is issued\<close>
  | Dispatch string string   \<comment> \<open>the \<open>componentLoaded\<close> event: component name, selector of the placeholder\<close>
  | Hook string              \<comment> \<open>a call of a global function of another script\<close>

datatype navigation =
    Assign string    \<comment> \<open>\<open>window.location.href = url\<close>: adds a history entry\<close>
  | Replace string   \<comment> \<open>\<open>window.location.replace(url)\<close>: no history entry\<close>

record window =
  pathname :: string                  \<comment> \<open>\<open>window.location.pathname\<close>\<close>
  hash :: string                      \<comment> \<open>\<open>window.location.hash\<close>\<close>
  nav_language :: "string option"     \<comment> \<open>\<open>navigator.language\<close>\<close>
  nav_userLanguage :: "string option" \<comment> \<open>\<open>navigator.userLanguage\<close>\<close>
  storage_access :: bool              \<comment> \<open>reaching \<open>localStorage\<close> does not throw\<close>
  storage_full :: bool                \<comment> \<open>\<open>setItem\<close> throws (quota)\<close>
  stored :: "string option"           \<comment> \<open>the value under \<open>STORAGE_KEY\<close>, \<open>None\<close> for \<open>null\<close>\<close>
  navigation :: "navigation option"   \<comment> \<open>the navigation the script has started, if any\<close>
  trace :: "event list"               \<comment> \<open>what the scripts did so far, oldest first\<close>

definition LANGUAGES :: "string list" where
  "LANGUAGES = [''ja'', ''en'']"

definition DEFAULT_LANGUAGE :: string where
  "DEFAULT_LANGUAGE = ''ja''"

definition STORAGE_KEY :: string where
  "STORAGE_KEY = ''stellar-aiz-language''"


section \<open>The i18n module\<close>

definition getLanguageFromURL :: "window \<Rightarrow> string" where
  "getLanguageFromURL w =
     (let path = pathname w in
      if startsWith path ''/en/'' \<or> path = ''/en'' then ''en'' else ''ja'')"

definition getSavedLanguage :: "window \<Rightarrow> string option" where
  \<comment> \<open>\<open>try { return localStorage.getItem(KEY) } catch (e) { return null }\<close>\<close>
  "getSavedLanguage w = (if storage_access w then stored w else None)"

definition saveLanguage :: "string \<Rightarrow> window \<Rightarrow> window" where
  \<comment> \<open>\<open>try { localStorage.setItem(KEY, lang) } catch (e) { }\<close>\<close>
  "saveLanguage lang w =
     (if storage_access w \<and> \<not> storage_full w then w\<lparr>stored := Some lang\<rparr> else w)"

definition getBrowserLanguage :: "window \<Rightarrow> string" where
  "getBrowserLanguage w =
     (let browserLang = js_or (nav_language w) (nav_userLanguage w) in
      case browserLang of
        None \<Rightarrow> ''ja''
      | Some tag \<Rightarrow>
          if truthy browserLang \<and> startsWith (toLowerCase tag) ''en'' then ''en'' else ''ja'')"

definition detectLanguage :: "window \<Rightarrow> string" where
  "detectLanguage w =
     (let urlLang = getLanguageFromURL w;
          savedLang = getSavedLanguage w;
          browserLang = getBrowserLanguage w
      in urlLang)"

definition getRelativePath :: "window \<Rightarrow> string" where
  "getRelativePath w =
     (let path = pathname w in
      if startsWith path ''/en/'' then substring path 3
      else if path = ''/en'' then ''/''
      else path)"

definition buildLanguageURL :: "string \<Rightarrow> window \<Rightarrow> string" where
  "buildLanguageURL targetLang w =
     (let relativePath = getRelativePath w;
          h = hash w
      in if targetLang = ''en''
         then (let enPath = ''/en'' @ (if relativePath = ''/'' then ''/'' else relativePath)
               in enPath @ h)
         else relativePath @ h)"

definition switchLanguage :: "string \<Rightarrow> window \<Rightarrow> window" where
  "switchLanguage targetLang w =
     (if targetLang \<notin> set LANGUAGES
      then w\<lparr>trace := trace w @ [Warn (UnsupportedLanguage targetLang)]\<rparr>
      else
        (let w1 = saveLanguage targetLang w;
             targetURL = buildLanguageURL targetLang w1;
             currentPath = pathname w1 @ hash w1
         in if targetURL \<noteq> currentPath
            then w1\<lparr>navigation := Some (Assign targetURL)\<rparr>
            else w1))"

definition shouldAutoRedirect :: "window \<Rightarrow> bool" where
  "shouldAutoRedirect w =
     (let savedLang = getSavedLanguage w in
      if truthy savedLang then False
      else
        (let currentLang = getLanguageFromURL w;
             browserLang = getBrowserLanguage w
         in currentLang = ''ja'' \<and> browserLang = ''en''))"

definition handleAutoRedirect :: "window \<Rightarrow> bool \<times> window" where
  \<comment> \<open>the returned flag, and the window after the call\<close>
  "handleAutoRedirect w =
     (if shouldAutoRedirect w
      then (let targetURL = buildLanguageURL ''en'' w
            in (True, w\<lparr>navigation := Some (Replace targetURL)\<rparr>))
      else (False, w))"

definition init :: "window \<Rightarrow> window" where
  "init w =
     (case handleAutoRedirect w of
        (True, w1) \<Rightarrow> w1
      | (False, w1) \<Rightarrow>
          (let savedLang = getSavedLanguage w1;
               currentLang = getLanguageFromURL w1
           in if \<not> truthy savedLang then saveLanguage currentLang w1 else w1))"

definition getCurrentLanguage :: "window \<Rightarrow> string" where
  "getCurrentLanguage w = getLanguageFromURL w"

text \<open>
  The page a started navigation lands on: the targets the module builds are a pathname
  followed by the current hash, so the pathname of the landing page is the target up to
  its first \<open>#\<close> or \<open>?\<close>.
\<close>

definition url_pathname :: "string \<Rightarrow> string" where
  "url_pathname u = takeWhile (\<lambda>c. c \<noteq> CHR ''#'' \<and> c \<noteq> CHR ''?'') u"

definition is_pathname :: "string \<Rightarrow> bool" where
  \<comment> \<open>\<open>location.pathname\<close> of a page served over http(s) begins with a slash\<close>
  "is_pathname p = startsWith p ''/''"

definition stored_supported :: "window \<Rightarrow> bool" where
  \<comment> \<open>the stored value is absent or one of the supported codes\<close>
  "stored_supported w = (case stored w of None \<Rightarrow> True | Some v \<Rightarrow> v \<in> set LANGUAGES)"

definition example_window :: window where
  "example_window =
     \<lparr>pathname = ''/services/'', hash = '''', nav_language = Some ''en-US'',
      nav_userLanguage = None, storage_access = True, storage_full = False,
      stored = None, navigation = None, trace = []\<rparr>"


section \<open>The document the component loader works on\<close>

record element =
  classes :: "string list"          \<comment> \<open>\<open>classList\<close>\<close>
  data_page :: "string option"      \<comment> \<open>the attribute \<open>data-page\<close>, \<open>None\<close> when it is not set\<close>
  aria_current :: "string option"   \<comment> \<open>the attribute \<open>aria-current\<close>\<close>
  inside :: "string option"         \<comment> \<open>the selector of the placeholder that contains the element, if one does\<close>

datatype global_hook =
    NoHook        \<comment> \<open>\<open>typeof initFlowbite !== 'function'\<close>\<close>
  | HookReturns   \<comment> \<open>the global \<open>initFlowbite\<close> is a function and returns\<close>
  | HookThrows    \<comment> \<open>the global \<open>initFlowbite\<close> is a function and throws\<close>

record page = window +
  placeholders :: "string \<rightharpoonup> string" \<comment> \<open>selector to \<open>innerHTML\<close>; \<open>None\<close> when \<open>querySelector\<close> finds nothing\<close>
  elements :: "element list"          \<comment> \<open>the elements of the document\<close>
  parse_html :: "string \<Rightarrow> element list" \<comment> \<open>the HTML parser: the elements a markup text creates\<close>
  flowbite :: global_hook             \<comment> \<open>the global \<open>initFlowbite\<close> of the widget library\<close>

datatype 'a completion =
    Returned 'a   \<comment> \<open>the call has returned (its promise is fulfilled), with the page it leaves\<close>
  | Threw 'a      \<comment> \<open>the call has thrown (its promise is rejected), with the page it leaves\<close>
  | Waiting 'a    \<comment> \<open>the call waits for ever (its promise stays pending), with the page reached\<close>

record component =
  selector :: string
  file_name :: string   \<comment> \<open>the field \<open>file\<close>\<close>

datatype fetch_outcome =
    Rejected                         \<comment> \<open>the promise of \<open>fetch\<close> rejects\<close>
  | Responded nat "string option"    \<comment> \<open>status, and the body text (\<open>None\<close> when \<open>response.text()\<close> rejects)\<close>

type_synonym network = "string \<Rightarrow> fetch_outcome option"
  \<comment> \<open>what the request for a URL settles to; \<open>None\<close> when it never settles\<close>

definition response_ok :: "nat \<Rightarrow> bool" where
  \<comment> \<open>\<open>response.ok\<close>\<close>
  "response_ok status = (200 \<le> status \<and> status \<le> 299)"


section \<open>The component loader\<close>

definition componentsPath :: string where
  "componentsPath = ''/components''"

definition components :: "(string \<times> component) list" where
  "components =
     [(''header'', \<lparr>selector = ''#header-placeholder'', file_name = ''header.html''\<rparr>),
      (''footer'', \<lparr>selector = ''#footer-placeholder'', file_name = ''footer.html''\<rparr>)]"

definition Object_keys :: "string list" where
  \<comment> \<open>\<open>Object.keys(this.components)\<close>\<close>
  "Object_keys = map fst components"

definition isEnglishPage :: "page \<Rightarrow> bool" where
  "isEnglishPage pg = (let path = pathname pg in startsWith path ''/en/'' \<or> path = ''/en'')"

definition getComponentFile :: "string \<Rightarrow> page \<Rightarrow> string option" where
  "getComponentFile name pg =
     (case map_of components name of
        None \<Rightarrow> None
      | Some component \<Rightarrow>
          if isEnglishPage pg
          then (let baseName = replace_first (file_name component) ''.html'' []
                in Some (baseName @ ''-en.html''))
          else Some (file_name component))"

definition template :: "string option \<Rightarrow> string" where
  \<comment> \<open>a string-or-null inside a template literal\<close>
  "template v = (case v of None \<Rightarrow> ''null'' | Some s \<Rightarrow> s)"

definition loadComponent_start :: "string \<Rightarrow> page \<Rightarrow> page \<times> (string \<times> string) option" where
  \<comment> \<open>\<open>loadComponent\<close> up to its first \<open>await\<close>: the page, and the selector and URL of the
      request it waits for (\<open>None\<close> when it has returned)\<close>
  "loadComponent_start name pg =
     (case map_of components name of
        None \<Rightarrow> (pg\<lparr>trace := trace pg @ [Warn (ComponentNotFound name)]\<rparr>, None)
      | Some component \<Rightarrow>
          (case placeholders pg (selector component) of
             None \<Rightarrow>
               (pg\<lparr>trace := trace pg @ [Warn (PlaceholderNotFound (selector component))]\<rparr>, None)
           | Some _ \<Rightarrow>
               (let f = template (getComponentFile name pg);
                    url = componentsPath @ ''/'' @ f
                in (pg\<lparr>trace := trace pg @ [Fetch url]\<rparr>, Some (selector component, url)))))"

definition set_innerHTML :: "string \<Rightarrow> element list \<Rightarrow> element list \<Rightarrow> element list" where
  \<comment> \<open>the elements of the document after \<open>placeholder.innerHTML = html\<close>: what the
      placeholder contained is gone, what the markup creates is inside it\<close>
  "set_innerHTML sel created es =
     filter (\<lambda>e. inside e \<noteq> Some sel) es @ map (\<lambda>e. e\<lparr>inside := Some sel\<rparr>) created"

definition try_inject :: "string \<Rightarrow> string \<Rightarrow> fetch_outcome \<Rightarrow> page \<Rightarrow> thrown + page" where
  \<comment> \<open>the body of the \<open>try\<close> once the request has settled; \<open>Inl\<close> is what it throws\<close>
  "try_inject name sel outcome pg =
     (case outcome of
        Rejected \<Rightarrow> Inl TransportError
      | Responded status body \<Rightarrow>
          if \<not> response_ok status then Inl (HttpError status)
          else (case body of
                  None \<Rightarrow> Inl TransportError
                | Some html \<Rightarrow>
                    Inr (pg\<lparr>placeholders := (placeholders pg)(sel \<mapsto> html),
                            elements := set_innerHTML sel (parse_html pg html) (elements pg),
                            trace := trace pg @ [Dispatch name sel]\<rparr>)))"

definition loadComponent_settle :: "string \<Rightarrow> string \<Rightarrow> fetch_outcome \<Rightarrow> page \<Rightarrow> page" where
  \<comment> \<open>the \<open>try\<close> with its \<open>catch\<close>\<close>
  "loadComponent_settle name sel outcome pg =
     (case try_inject name sel outcome pg of
        Inl error \<Rightarrow> pg\<lparr>trace := trace pg @ [Error name error]\<rparr>
      | Inr pg' \<Rightarrow> pg')"

definition loadComponent :: "network \<Rightarrow> string \<Rightarrow> page \<Rightarrow> page option" where
  \<comment> \<open>one awaited call; \<open>None\<close> when its promise never settles\<close>
  "loadComponent net name pg =
     (case loadComponent_start name pg of
        (pg1, None) \<Rightarrow> Some pg1
      | (pg1, Some (sel, url)) \<Rightarrow>
          (case net url of
             None \<Rightarrow> None
           | Some outcome \<Rightarrow> Some (loadComponent_settle name sel outcome pg1)))"

definition initFlowbite :: "page \<Rightarrow> page completion" where
  \<comment> \<open>nothing guards the call of the global function: what it throws, the method throws\<close>
  "initFlowbite pg =
     (case flowbite pg of
        NoHook \<Rightarrow> Returned pg
      | HookReturns \<Rightarrow> Returned (pg\<lparr>trace := trace pg @ [Hook ''initFlowbite'']\<rparr>)
      | HookThrows \<Rightarrow> Threw (pg\<lparr>trace := trace pg @ [Hook ''initFlowbite'']\<rparr>))"

definition replace_en_prefix :: "string \<Rightarrow> string" where
  \<comment> \<open>\<open>currentPath.replace(/^\/en/, '')\<close>\<close>
  "replace_en_prefix p = (if startsWith p ''/en'' then drop 3 p else p)"

definition normalizedPath :: "page \<Rightarrow> string" where
  \<comment> \<open>\<open>currentPath\<close> of \<open>highlightActiveNav\<close> after its normalisation\<close>
  "normalizedPath pg =
     (let currentPath = pathname pg;
          isEnglish = isEnglishPage pg
      in if isEnglish
         then (let r = replace_en_prefix currentPath in if r = [] then ''/'' else r)
         else currentPath)"

definition nav_link :: "element \<Rightarrow> bool" where
  \<comment> \<open>the element matches \<open>.nav-link[data-page]\<close>\<close>
  "nav_link e = (''nav-link'' \<in> set (classes e) \<and> data_page e \<noteq> None)"

definition isActive :: "string \<Rightarrow> string \<Rightarrow> bool" where
  "isActive currentPath pageId =
     (if pageId = ''home'' \<and> (currentPath = ''/'' \<or> currentPath = ''/index.html'') then True
      else if pageId \<noteq> [] \<and> includes_str currentPath (''/pages/'' @ pageId @ ''/'') then True
      else False)"

definition classList_add :: "string \<Rightarrow> string list \<Rightarrow> string list" where
  "classList_add c cs = (if c \<in> set cs then cs else cs @ [c])"

definition classList_remove :: "string \<Rightarrow> string list \<Rightarrow> string list" where
  "classList_remove c cs = removeAll c cs"

definition activate :: "element \<Rightarrow> element" where
  "activate link =
     link\<lparr>classes :=
            classList_remove ''text-gray-900''
              (classList_add ''md:text-blue-600'' (classList_add ''text-blue-600'' (classes link))),
          aria_current := Some ''page''\<rparr>"

definition highlight_link :: "string \<Rightarrow> element \<Rightarrow> element" where
  \<comment> \<open>the body of the \<open>forEach\<close>\<close>
  "highlight_link currentPath link =
     (case data_page link of
        None \<Rightarrow> link
      | Some pageId \<Rightarrow> if isActive currentPath pageId then activate link else link)"

definition highlightActiveNav :: "page \<Rightarrow> page" where
  "highlightActiveNav pg =
     (let currentPath = normalizedPath pg
      in pg\<lparr>elements :=
              map (\<lambda>e. if nav_link e then highlight_link currentPath e else e) (elements pg)\<rparr>)"

text \<open>
  \<open>loadAll\<close> starts every component in the order of the keys, which issues all requests;
  the continuations then run one at a time in the order in which the requests settle.
  That order is the parameter \<open>order\<close>.  A continuation has no effect between its two
  \<open>await\<close>s, so it is one step.  The two post-steps follow \<open>await Promise.all\<close>, which
  is passed only when every started call has settled; no call rejects, since the
  \<open>catch\<close> takes every exception of the \<open>try\<close>.  An exception of the first post-step
  leaves \<open>loadAll\<close> before the second.
\<close>

fun start_all :: "string list \<Rightarrow> page \<Rightarrow> page \<times> (string \<times> string \<times> string) list" where
  \<comment> \<open>the page, and name, selector and URL of every call that waits for a request\<close>
  "start_all [] pg = (pg, [])"
| "start_all (name # names) pg =
     (case loadComponent_start name pg of
        (pg1, r) \<Rightarrow>
          (case start_all names pg1 of
             (pg2, rs) \<Rightarrow>
               (pg2, (case r of None \<Rightarrow> [] | Some (sel, url) \<Rightarrow> [(name, sel, url)]) @ rs)))"

fun settle_all :: "network \<Rightarrow> (string \<times> string \<times> string) list \<Rightarrow> string list \<Rightarrow> page \<Rightarrow> page" where
  "settle_all net awaited [] pg = pg"
| "settle_all net awaited (name # order) pg =
     settle_all net awaited order
       (case find (\<lambda>a. fst a = name) awaited of
          None \<Rightarrow> pg
        | Some (n, sel, url) \<Rightarrow>
            (case net url of
               None \<Rightarrow> pg
             | Some outcome \<Rightarrow> loadComponent_settle name sel outcome pg))"

definition all_settled :: "network \<Rightarrow> (string \<times> string \<times> string) list \<Rightarrow> bool" where
  "all_settled net awaited = list_all (\<lambda>(n, sel, url). net url \<noteq> None) awaited"

definition loadAll :: "network \<Rightarrow> string list \<Rightarrow> page \<Rightarrow> page completion" where
  "loadAll net order pg =
     (case start_all Object_keys pg of
        (pg1, awaited) \<Rightarrow>
          (let pg2 = settle_all net awaited order pg1
           in if all_settled net awaited
              then (case initFlowbite pg2 of
                      Returned pg3 \<Rightarrow> Returned (highlightActiveNav pg3)
                    | Threw pg3 \<Rightarrow> Threw pg3
                    | Waiting pg3 \<Rightarrow> Waiting pg3)
              else Waiting pg2))"

definition page_of :: "'a completion \<Rightarrow> 'a" where
  "page_of r = (case r of Returned pg \<Rightarrow> pg | Threw pg \<Rightarrow> pg | Waiting pg \<Rightarrow> pg)"

definition fetch_url :: "string \<Rightarrow> page \<Rightarrow> string" where
  \<comment> \<open>\<open>`${this.componentsPath}/${file}`\<close>\<close>
  "fetch_url name pg = componentsPath @ ''/'' @ template (getComponentFile name pg)"

definition example_parser :: "string \<Rightarrow> element list" where
  \<comment> \<open>the markup \<open><nav/>\<close> stands for a header with the links \<open>home\<close> and \<open>about\<close>\<close>
  "example_parser html =
     (if html = ''<nav/>''
      then [\<lparr>classes = [''nav-link'', ''text-gray-900''], data_page = Some ''home'',
             aria_current = None, inside = None\<rparr>,
            \<lparr>classes = [''nav-link'', ''text-gray-900''], data_page = Some ''about'',
             aria_current = None, inside = None\<rparr>]
      else [])"

definition example_page :: page where
  "example_page =
     \<lparr>pathname = ''/en/pages/about/'', hash = [], nav_language = Some ''en-US'',
      nav_userLanguage = None, storage_access = True, storage_full = False,
      stored = Some ''en'', navigation = None, trace = [],
      placeholders = [''#header-placeholder'' \<mapsto> [], ''#footer-placeholder'' \<mapsto> []],
      elements =
        [\<lparr>classes = [''nav-link'', ''text-gray-900''], data_page = Some ''home'',
          aria_current = None, inside = None\<rparr>,
         \<lparr>classes = [''nav-link'', ''text-gray-900''], data_page = Some ''about'',
          aria_current = None, inside = None\<rparr>],
      parse_html = example_parser, flowbite = NoHook\<rparr>"

definition example_network :: network where
  \<comment> \<open>the header answers 404, the footer 200\<close>
  "example_network =
     (\<lambda>url. if url = ''/components/header-en.html'' then Some (Responded 404 (Some ''Not Found''))
            else if url = ''/components/footer-en.html'' then Some (Responded 200 (Some ''<footer/>''))
            else Some Rejected)"

definition example_network_header :: network where
  \<comment> \<open>the header answers 200 with its links, the footer 404\<close>
  "example_network_header =
     (\<lambda>url. if url = ''/components/header-en.html'' then Some (Responded 200 (Some ''<nav/>''))
            else if url = ''/components/footer-en.html'' then Some (Responded 404 (Some ''Not Found''))
            else Some Rejected)"


section \<open>Notions used in the statements about the component loader\<close>

definition fetched_markup :: "fetch_outcome \<Rightarrow> string option" where
  \<comment> \<open>the markup of a request that succeeded: a status that is \<open>ok\<close> and a body that was read\<close>
  "fetched_markup outcome =
     (case outcome of
        Rejected \<Rightarrow> None
      | Responded status body \<Rightarrow> if response_ok status then body else None)"

definition failure_of :: "fetch_outcome \<Rightarrow> thrown" where
  \<comment> \<open>what the \<open>try\<close> throws for a request that did not succeed\<close>
  "failure_of outcome =
     (case outcome of
        Rejected \<Rightarrow> TransportError
      | Responded status body \<Rightarrow> if response_ok status then TransportError else HttpError status)"

definition settled_event :: "string \<Rightarrow> string \<Rightarrow> fetch_outcome \<Rightarrow> event" where
  \<comment> \<open>the entry a settled request leaves in the trace\<close>
  "settled_event name sel outcome =
     (case fetched_markup outcome of
        None \<Rightarrow> Error name (failure_of outcome)
      | Some html \<Rightarrow> Dispatch name sel)"

definition start_event :: "string \<Rightarrow> page \<Rightarrow> event" where
  \<comment> \<open>the entry the start of \<open>loadComponent(name)\<close> leaves in the trace\<close>
  "start_event name pg =
     (case map_of components name of
        None \<Rightarrow> Warn (ComponentNotFound name)
      | Some c \<Rightarrow>
          (case placeholders pg (selector c) of
             None \<Rightarrow> Warn (PlaceholderNotFound (selector c))
           | Some _ \<Rightarrow> Fetch (fetch_url name pg)))"

definition settle_events :: "network \<Rightarrow> string \<Rightarrow> page \<Rightarrow> event list" where
  \<comment> \<open>the entry of the component's request once it settles; none when no request was made
      or it never settles\<close>
  "settle_events net name pg =
     (case map_of components name of
        None \<Rightarrow> []
      | Some c \<Rightarrow>
          (case placeholders pg (selector c) of
             None \<Rightarrow> []
           | Some _ \<Rightarrow>
               (case net (fetch_url name pg) of
                  None \<Rightarrow> []
                | Some outcome \<Rightarrow> [settled_event name (selector c) outcome])))"

definition settle_one :: "network \<Rightarrow> page \<Rightarrow> string \<Rightarrow> page \<Rightarrow> page" where
  \<comment> \<open>the continuation of the component's call, for the requests made from the page \<open>pg0\<close>\<close>
  "settle_one net pg0 name pg =
     (case map_of components name of
        None \<Rightarrow> pg
      | Some c \<Rightarrow>
          (case placeholders pg0 (selector c) of
             None \<Rightarrow> pg
           | Some _ \<Rightarrow>
               (case net (fetch_url name pg0) of
                  None \<Rightarrow> pg
                | Some outcome \<Rightarrow> loadComponent_settle name (selector c) outcome pg)))"

definition injected :: "network \<Rightarrow> string \<Rightarrow> page \<Rightarrow> string option" where
  \<comment> \<open>the markup the component's own request brings, if its placeholder exists and the
      request succeeds\<close>
  "injected net name pg =
     (case map_of components name of
        None \<Rightarrow> None
      | Some c \<Rightarrow>
          (case placeholders pg (selector c) of
             None \<Rightarrow> None
           | Some _ \<Rightarrow> Option.bind (net (fetch_url name pg)) fetched_markup))"

definition every_request_settles :: "network \<Rightarrow> page \<Rightarrow> bool" where
  "every_request_settles net pg =
     list_all (\<lambda>(name, c). placeholders pg (selector c) = None \<or> net (fetch_url name pg) \<noteq> None)
       components"

definition started :: "page \<Rightarrow> page" where
  \<comment> \<open>the page once every component has been started\<close>
  "started pg = pg\<lparr>trace := trace pg @ map (\<lambda>n. start_event n pg) Object_keys\<rparr>"

definition settled_elements :: "network \<Rightarrow> string list \<Rightarrow> page \<Rightarrow> element list" where
  \<comment> \<open>the elements of the document once the requests have settled in the given order: each
      successful request has put what its markup creates into its placeholder\<close>
  "settled_elements net order pg =
     fold (\<lambda>name es. case injected net name pg of
                        None \<Rightarrow> es
                      | Some html \<Rightarrow>
                          set_innerHTML (selector (the (map_of components name)))
                            (parse_html pg html) es)
       order (elements pg)"

definition highlighted :: "page \<Rightarrow> element \<Rightarrow> element" where
  \<comment> \<open>what \<open>highlightActiveNav\<close> on the page makes of an element\<close>
  "highlighted pg e = (if nav_link e then highlight_link (normalizedPath pg) e else e)"

definition is_hook :: "event \<Rightarrow> bool" where
  "is_hook e = (case e of Hook s \<Rightarrow> True | _ \<Rightarrow> False)"

definition is_active :: "element \<Rightarrow> bool" where
  \<comment> \<open>the element carries the active classes and \<open>aria-current="page"\<close>\<close>
  "is_active e =
     (''text-blue-600'' \<in> set (classes e) \<and> ''md:text-blue-600'' \<in> set (classes e)
      \<and> ''text-gray-900'' \<notin> set (classes e) \<and> aria_current e = Some ''page'')"


section \<open>String methods\<close>

lemma startsWith_prefix: "startsWith s p = prefix p s"
proof
  assume "startsWith s p"
  then have "s = p @ drop (length p) s"
    unfolding startsWith_def by (metis append_take_drop_id)
  then show "prefix p s" by (rule prefixI)
next
  assume "prefix p s"
  then obtain r where "s = p @ r" by (auto elim: prefixE)
  then show "startsWith s p" by (simp add: startsWith_def)
qed

lemma startsWith_Cons: "startsWith (c # cs) (d # ds) = (c = d \<and> startsWith cs ds)"
  by (auto simp: startsWith_def)

lemma startsWith_Nil [simp]: "startsWith s [] = True"
  by (simp add: startsWith_def)

lemma startsWith_Nil_left [simp]: "startsWith [] (d # ds) = False"
  by (simp add: startsWith_def)

lemma startsWith_en_split: "startsWith p ''/en/'' \<Longrightarrow> \<exists>r. p = ''/en/'' @ r"
  by (auto simp: startsWith_prefix elim: prefixE)

lemma startsWith_iff_append: "startsWith s t = (\<exists>post. s = t @ post)"
  by (auto simp: startsWith_prefix prefix_def)

lemma includes_str_iff: "includes_str s t = (\<exists>pre post. s = pre @ t @ post)"
proof (induction s)
  case Nil
  then show ?case by auto
next
  case (Cons c cs)
  show ?case
  proof
    assume "includes_str (c # cs) t"
    then consider "startsWith (c # cs) t" | "includes_str cs t" by auto
    then show "\<exists>pre post. c # cs = pre @ t @ post"
    proof cases
      case 1
      then obtain post where "c # cs = t @ post" by (auto simp: startsWith_iff_append)
      then have "c # cs = [] @ t @ post" by simp
      then show ?thesis by blast
    next
      case 2
      then obtain pre post where "cs = pre @ t @ post" using Cons.IH by auto
      then have "c # cs = (c # pre) @ t @ post" by simp
      then show ?thesis by blast
    qed
  next
    assume "\<exists>pre post. c # cs = pre @ t @ post"
    then obtain pre post where eq: "c # cs = pre @ t @ post" by blast
    show "includes_str (c # cs) t"
    proof (cases pre)
      case Nil
      then have "startsWith (c # cs) t" using eq by (auto simp: startsWith_iff_append)
      then show ?thesis by simp
    next
      case (Cons p pre')
      then have "cs = pre' @ t @ post" using eq by simp
      then have "includes_str cs t" using Cons.IH by blast
      then show ?thesis by simp
    qed
  qed
qed


section \<open>Facts about the i18n module\<close>

lemma getLanguageFromURL_cases: "getLanguageFromURL w = ''ja'' \<or> getLanguageFromURL w = ''en''"
  by (simp add: getLanguageFromURL_def Let_def)

lemma getBrowserLanguage_cases: "getBrowserLanguage w = ''ja'' \<or> getBrowserLanguage w = ''en''"
  by (simp add: getBrowserLanguage_def Let_def split: option.split)

lemma stored_saveLanguage:
  "stored (saveLanguage lang w)
     = (if storage_access w \<and> \<not> storage_full w then Some lang else stored w)"
  by (simp add: saveLanguage_def)

lemma saveLanguage_frame:
  "pathname (saveLanguage lang w) = pathname w" "hash (saveLanguage lang w) = hash w"
  "navigation (saveLanguage lang w) = navigation w" "trace (saveLanguage lang w) = trace w"
  by (simp_all add: saveLanguage_def)

lemma buildLanguageURL_saveLanguage:
  "buildLanguageURL t (saveLanguage lang w) = buildLanguageURL t w"
  by (simp add: buildLanguageURL_def getRelativePath_def saveLanguage_def)

text \<open>
  The module stores nothing but supported codes: a stored value that is absent or
  supported stays so under \<open>init\<close> and under \<open>switchLanguage\<close> with any argument.
\<close>

lemma stored_supported_init: "stored_supported w \<Longrightarrow> stored_supported (init w)"
  using getLanguageFromURL_cases [of w]
  by (auto simp: stored_supported_def init_def handleAutoRedirect_def saveLanguage_def
      LANGUAGES_def Let_def split: option.splits if_splits)

lemma stored_supported_switchLanguage:
  "stored_supported w \<Longrightarrow> stored_supported (switchLanguage t w)"
  by (auto simp: stored_supported_def switchLanguage_def saveLanguage_def Let_def
      split: option.splits if_splits)

lemma stored_supported_nonempty: "stored_supported w \<Longrightarrow> getSavedLanguage w \<noteq> Some []"
  by (auto simp: stored_supported_def getSavedLanguage_def LANGUAGES_def split: option.splits)

lemma en_prefixed_relative:
  "(startsWith (getRelativePath w) ''/en/'' \<or> getRelativePath w = ''/en'')
   = (startsWith (pathname w) ''/en/en/'' \<or> pathname w = ''/en/en'')"
proof (cases "startsWith (pathname w) ''/en/''")
  case True
  then obtain r where r: "pathname w = ''/en/'' @ r"
    using startsWith_en_split by blast
  show ?thesis using True
    by (simp add: r getRelativePath_def substring_def startsWith_Cons)
next
  case False
  moreover have "\<not> startsWith (pathname w) ''/en/en/''"
    using False
    by (auto simp: startsWith_prefix intro: prefix_order.trans [of "''/en/''" "''/en/en/''"])
  ultimately show ?thesis
    by (auto simp: getRelativePath_def Let_def startsWith_Cons)
qed

lemma nested_en_never_roundtrips:
  assumes "startsWith (pathname w) ''/en/en/'' \<or> pathname w = ''/en/en''" and "hash w = []"
  shows "getLanguageFromURL (w\<lparr>pathname := buildLanguageURL ''ja'' w\<rparr>) = ''en''"
proof -
  have "startsWith (getRelativePath w) ''/en/'' \<or> getRelativePath w = ''/en''"
    using assms en_prefixed_relative by simp
  then show ?thesis using assms(2)
    by (auto simp: getLanguageFromURL_def buildLanguageURL_def Let_def)
qed

lemma url_pathname_en:
  assumes "startsWith p ''/''"
  shows "startsWith (url_pathname (''/en'' @ p @ h)) ''/en/''"
proof -
  obtain r where "p = ''/'' @ r"
    using assms by (auto simp: startsWith_prefix elim: prefixE)
  then show ?thesis by (simp add: url_pathname_def startsWith_Cons)
qed

text \<open>
  C1.  \<open>shouldAutoRedirect\<close> is true exactly when there is no persisted preference, the
  locale of the current path is the default \<open>ja\<close> and the browser locale is \<open>en\<close>; with a
  persisted preference it is false whatever the path and the browser say.  Both locales
  are always one of the two supported codes, so these are all eight cases.  The
  persisted value, when there is one, is taken to be a non-empty string: the module itself
  stores only \<open>ja\<close> or \<open>en\<close> (\<open>stored_supported_init\<close>, \<open>stored_supported_switchLanguage\<close>).
\<close>

theorem shouldAutoRedirect_truth_table:
  assumes "getSavedLanguage w \<noteq> Some []"
  shows "(shouldAutoRedirect w \<longleftrightarrow>
            getSavedLanguage w = None \<and> getLanguageFromURL w = DEFAULT_LANGUAGE
            \<and> getBrowserLanguage w = ''en'')
         \<and> (getSavedLanguage w \<noteq> None \<longrightarrow> \<not> shouldAutoRedirect w)
         \<and> getLanguageFromURL w \<in> set LANGUAGES
         \<and> getBrowserLanguage w \<in> set LANGUAGES"
  using assms getLanguageFromURL_cases [of w] getBrowserLanguage_cases [of w]
  by (cases "getSavedLanguage w")
     (auto simp: shouldAutoRedirect_def Let_def DEFAULT_LANGUAGE_def LANGUAGES_def)

theorem shouldAutoRedirect_truth_table_witness:
  "getSavedLanguage example_window \<noteq> Some [] \<and> shouldAutoRedirect example_window
   \<and> getSavedLanguage (example_window\<lparr>stored := Some ''ja''\<rparr>) \<noteq> Some []
   \<and> \<not> shouldAutoRedirect (example_window\<lparr>stored := Some ''ja''\<rparr>)"
proof -
  have a: "getSavedLanguage example_window \<noteq> Some []"
    by (simp add: getSavedLanguage_def example_window_def)
  have b: "getSavedLanguage (example_window\<lparr>stored := Some ''ja''\<rparr>) \<noteq> Some []"
    by (simp add: getSavedLanguage_def example_window_def)
  have c: "getSavedLanguage example_window = None"
    by (simp add: getSavedLanguage_def example_window_def)
  have d: "getLanguageFromURL example_window = DEFAULT_LANGUAGE"
    by (simp add: getLanguageFromURL_def example_window_def DEFAULT_LANGUAGE_def startsWith_def)
  have e: "getBrowserLanguage example_window = ''en''"
    by (simp add: getBrowserLanguage_def example_window_def js_or_def toLowerCase_def
        toLowerChar_def startsWith_def Let_def)
  have f: "getSavedLanguage (example_window\<lparr>stored := Some ''ja''\<rparr>) \<noteq> None"
    by (simp add: getSavedLanguage_def example_window_def)
  show ?thesis
    using shouldAutoRedirect_truth_table [OF a] shouldAutoRedirect_truth_table [OF b] a b c d e f
    by blast
qed

text \<open>
  C2, as the code has it.  For a supported locale \<open>L\<close> and a pathname (a path beginning
  with a slash) with an empty hash, the URL built for \<open>L\<close> resolves to \<open>L\<close>, unless
  \<open>L\<close> is \<open>ja\<close> and the path is \<open>/en/en\<close> or lies under \<open>/en/en/\<close>: only one \<open>/en\<close> is
  removed, and what is left still resolves to \<open>en\<close> (\<open>nested_en_never_roundtrips\<close>).
\<close>

theorem buildLanguageURL_roundtrip:
  assumes "L \<in> set LANGUAGES" and "is_pathname (pathname w)" and "hash w = []"
    and "L = ''ja'' \<longrightarrow> \<not> (startsWith (pathname w) ''/en/en/'' \<or> pathname w = ''/en/en'')"
  shows "getLanguageFromURL (w\<lparr>pathname := buildLanguageURL L w\<rparr>) = L"
proof (cases "L = ''en''")
  case True
  have rel: "startsWith (getRelativePath w) ''/''"
  proof (cases "startsWith (pathname w) ''/en/''")
    case True
    then obtain r where "pathname w = ''/en/'' @ r" using startsWith_en_split by blast
    then show ?thesis by (simp add: getRelativePath_def substring_def startsWith_Cons)
  next
    case False
    then show ?thesis using assms(2)
      by (auto simp: getRelativePath_def Let_def is_pathname_def startsWith_Cons)
  qed
  then obtain r where "getRelativePath w = ''/'' @ r"
    by (auto simp: startsWith_prefix elim: prefixE)
  then show ?thesis using True assms(3)
    by (simp add: getLanguageFromURL_def buildLanguageURL_def Let_def startsWith_Cons)
next
  case False
  then have ja: "L = ''ja''" using assms(1) by (simp add: LANGUAGES_def)
  then have "\<not> (startsWith (getRelativePath w) ''/en/'' \<or> getRelativePath w = ''/en'')"
    using assms(4) en_prefixed_relative by simp
  then show ?thesis using ja assms(3)
    by (simp add: getLanguageFromURL_def buildLanguageURL_def Let_def)
qed

theorem buildLanguageURL_roundtrip_witness:
  "getLanguageFromURL (example_window\<lparr>pathname := buildLanguageURL ''ja'' example_window\<rparr>) = ''ja''
   \<and> getLanguageFromURL (example_window\<lparr>pathname := buildLanguageURL ''en'' example_window\<rparr>) = ''en''"
proof -
  have l: "''ja'' \<in> set LANGUAGES" "''en'' \<in> set LANGUAGES" by (simp_all add: LANGUAGES_def)
  have p: "is_pathname (pathname example_window)"
    by (simp add: is_pathname_def example_window_def startsWith_def)
  have h: "hash example_window = []" by (simp add: example_window_def)
  have n: "''ja'' = ''ja'' \<longrightarrow>
             \<not> (startsWith (pathname example_window) ''/en/en/''
                \<or> pathname example_window = ''/en/en'')"
    by (simp add: example_window_def startsWith_def)
  have m: "''en'' = ''ja'' \<longrightarrow>
             \<not> (startsWith (pathname example_window) ''/en/en/''
                \<or> pathname example_window = ''/en/en'')"
    by simp
  show ?thesis
    using buildLanguageURL_roundtrip [OF l(1) p h n] buildLanguageURL_roundtrip [OF l(2) p h m]
    by simp
qed

text \<open>
  C2, as stated, fails: from the path \<open>/en/en/\<close> with an empty hash the URL built for
  \<open>ja\<close> is \<open>/en/\<close>, which resolves to \<open>en\<close>.
\<close>

theorem buildLanguageURL_roundtrip_counterexample:
  "''ja'' \<in> set LANGUAGES
   \<and> buildLanguageURL ''ja'' (example_window\<lparr>pathname := ''/en/en/'', hash := []\<rparr>) = ''/en/''
   \<and> getLanguageFromURL
        (example_window\<lparr>pathname :=
           buildLanguageURL ''ja'' (example_window\<lparr>pathname := ''/en/en/'', hash := []\<rparr>)\<rparr>)
       \<noteq> ''ja''"
  by (simp add: LANGUAGES_def getLanguageFromURL_def buildLanguageURL_def getRelativePath_def
      substring_def startsWith_def example_window_def)

text \<open>
  C6.  \<open>init\<close> never overwrites a persisted preference: a stored value stays as it is.
  When \<open>init\<close> does change the stored value there was none before, no redirect was due,
  the value written is the locale of the current path, and no navigation is started.
  The redirect step itself leaves the stored value alone.  As for C1 the stored value,
  when there is one, is a non-empty string.
\<close>

theorem init_keeps_existing_preference:
  assumes "stored w \<noteq> Some []"
  shows "(stored w \<noteq> None \<longrightarrow> stored (init w) = stored w)
         \<and> (stored (init w) \<noteq> stored w \<longrightarrow>
              getSavedLanguage w = None \<and> stored w = None \<and> \<not> shouldAutoRedirect w
              \<and> stored (init w) = Some (getLanguageFromURL w)
              \<and> navigation (init w) = navigation w)
         \<and> stored (snd (handleAutoRedirect w)) = stored w"
  using assms
  by (cases "stored w")
     (auto simp: init_def handleAutoRedirect_def shouldAutoRedirect_def getSavedLanguage_def
        saveLanguage_def Let_def getLanguageFromURL_def split: if_splits)

theorem init_keeps_existing_preference_witness:
  "stored (init (example_window\<lparr>stored := Some ''en''\<rparr>)) = Some ''en''
   \<and> stored (init (example_window\<lparr>nav_language := Some ''ja''\<rparr>)) = Some ''ja''
   \<and> navigation (init (example_window\<lparr>nav_language := Some ''ja''\<rparr>)) = None"
proof -
  have a: "stored (example_window\<lparr>stored := Some ''en''\<rparr>) \<noteq> Some []" by simp
  have b: "stored (example_window\<lparr>nav_language := Some ''ja''\<rparr>) \<noteq> Some []"
    by (simp add: example_window_def)
  have c: "stored (init (example_window\<lparr>nav_language := Some ''ja''\<rparr>))
           \<noteq> stored (example_window\<lparr>nav_language := Some ''ja''\<rparr>)"
    by (simp add: init_def handleAutoRedirect_def shouldAutoRedirect_def getSavedLanguage_def
        saveLanguage_def Let_def getLanguageFromURL_def getBrowserLanguage_def js_or_def
        toLowerCase_def toLowerChar_def startsWith_def example_window_def)
  have d: "getLanguageFromURL (example_window\<lparr>nav_language := Some ''ja''\<rparr>) = ''ja''"
    by (simp add: getLanguageFromURL_def startsWith_def example_window_def)
  have e: "navigation (example_window\<lparr>nav_language := Some ''ja''\<rparr>) = None"
    by (simp add: example_window_def)
  show ?thesis
    using init_keeps_existing_preference [OF a] init_keeps_existing_preference [OF b] c d e
    by simp
qed

text \<open>
  C8.  With a target outside the supported set \<open>switchLanguage\<close> logs a warning and
  changes neither the stored value nor the navigation.  With a supported target it
  saves the preference (the stored value becomes the target whenever the storage takes
  the write) and assigns the target URL to the location exactly when that URL differs
  from the current pathname and hash; it logs nothing.
\<close>

theorem switchLanguage_validates_then_navigates:
  "(t \<notin> set LANGUAGES \<longrightarrow>
      stored (switchLanguage t w) = stored w
      \<and> navigation (switchLanguage t w) = navigation w
      \<and> trace (switchLanguage t w) = trace w @ [Warn (UnsupportedLanguage t)])
   \<and> (t \<in> set LANGUAGES \<longrightarrow>
      stored (switchLanguage t w) = stored (saveLanguage t w)
      \<and> (storage_access w \<and> \<not> storage_full w \<longrightarrow> stored (switchLanguage t w) = Some t)
      \<and> navigation (switchLanguage t w) =
          (if buildLanguageURL t w \<noteq> pathname w @ hash w
           then Some (Assign (buildLanguageURL t w)) else navigation w)
      \<and> trace (switchLanguage t w) = trace w)"
  by (simp add: switchLanguage_def Let_def buildLanguageURL_saveLanguage saveLanguage_frame
      stored_saveLanguage)

theorem switchLanguage_validates_then_navigates_witness:
  "stored (switchLanguage ''fr'' example_window) = None
   \<and> navigation (switchLanguage ''fr'' example_window) = None
   \<and> stored (switchLanguage ''en'' example_window) = Some ''en''
   \<and> navigation (switchLanguage ''en'' example_window) = Some (Assign ''/en/services/'')
   \<and> stored (switchLanguage ''ja'' example_window) = Some ''ja''
   \<and> navigation (switchLanguage ''ja'' example_window) = None"
proof -
  have fr: "''fr'' \<notin> set LANGUAGES" by (simp add: LANGUAGES_def)
  have en: "''en'' \<in> set LANGUAGES" and ja: "''ja'' \<in> set LANGUAGES"
    by (simp_all add: LANGUAGES_def)
  have st: "storage_access example_window \<and> \<not> storage_full example_window"
    "stored example_window = None" "navigation example_window = None"
    by (simp_all add: example_window_def)
  have u: "buildLanguageURL ''en'' example_window = ''/en/services/''"
    "buildLanguageURL ''ja'' example_window = ''/services/''"
    "pathname example_window @ hash example_window = ''/services/''"
    by (simp_all add: buildLanguageURL_def getRelativePath_def startsWith_def example_window_def)
  show ?thesis
    using switchLanguage_validates_then_navigates [of "''fr''" example_window]
      switchLanguage_validates_then_navigates [of "''en''" example_window]
      switchLanguage_validates_then_navigates [of "''ja''" example_window]
      fr en ja st u
    by (simp add: stored_saveLanguage)
qed

text \<open>
  C10.  From a pathname whose locale is \<open>ja\<close>, the URL that \<open>handleAutoRedirect\<close>
  replaces the location with leads to a page whose locale is \<open>en\<close>.  On that page
  \<open>shouldAutoRedirect\<close> is false and \<open>handleAutoRedirect\<close> does nothing, whatever the
  browser language and the storage are there (\<open>w'\<close> is any window): the redirect does
  not fire a second time.
\<close>

theorem autoRedirect_target_is_english:
  assumes "is_pathname (pathname w)" and "getLanguageFromURL w = ''ja''"
  shows "getLanguageFromURL (w'\<lparr>pathname := url_pathname (buildLanguageURL ''en'' w)\<rparr>) = ''en''
         \<and> \<not> shouldAutoRedirect (w'\<lparr>pathname := url_pathname (buildLanguageURL ''en'' w)\<rparr>)
         \<and> \<not> fst (handleAutoRedirect (w'\<lparr>pathname := url_pathname (buildLanguageURL ''en'' w)\<rparr>))
         \<and> (shouldAutoRedirect w \<longrightarrow>
              handleAutoRedirect w
                = (True, w\<lparr>navigation := Some (Replace (buildLanguageURL ''en'' w))\<rparr>))"
proof -
  have rel: "getRelativePath w = pathname w"
    using assms(2)
    by (auto simp: getLanguageFromURL_def getRelativePath_def Let_def split: if_splits)
  have "buildLanguageURL ''en'' w = ''/en'' @ pathname w @ hash w"
    by (simp add: buildLanguageURL_def rel Let_def)
  then have "startsWith (url_pathname (buildLanguageURL ''en'' w)) ''/en/''"
    using url_pathname_en assms(1) by (simp add: is_pathname_def)
  then have en:
    "getLanguageFromURL (w'\<lparr>pathname := url_pathname (buildLanguageURL ''en'' w)\<rparr>) = ''en''"
    by (simp add: getLanguageFromURL_def)
  then show ?thesis
    by (simp add: shouldAutoRedirect_def handleAutoRedirect_def Let_def)
qed

theorem autoRedirect_target_is_english_witness:
  "shouldAutoRedirect example_window
   \<and> handleAutoRedirect example_window
       = (True, example_window\<lparr>navigation := Some (Replace ''/en/services/'')\<rparr>)
   \<and> \<not> shouldAutoRedirect (example_window\<lparr>pathname := ''/en/services/''\<rparr>)"
proof -
  have p: "is_pathname (pathname example_window)"
    by (simp add: is_pathname_def example_window_def startsWith_def)
  have j: "getLanguageFromURL example_window = ''ja''"
    by (simp add: getLanguageFromURL_def startsWith_def example_window_def)
  have s: "shouldAutoRedirect example_window"
    by (simp add: shouldAutoRedirect_def getSavedLanguage_def getLanguageFromURL_def
        getBrowserLanguage_def js_or_def toLowerCase_def toLowerChar_def startsWith_def
        example_window_def)
  have u: "buildLanguageURL ''en'' example_window = ''/en/services/''"
    by (simp add: buildLanguageURL_def getRelativePath_def startsWith_def example_window_def)
  have v: "url_pathname ''/en/services/'' = ''/en/services/''"
    by (simp add: url_pathname_def)
  show ?thesis
    using autoRedirect_target_is_english [OF p j, of example_window] s u v by simp
qed

text \<open>
  C5.  Concrete paths: from \<open>/services/\<close> the English URL is \<open>/en/services/\<close>, from
  \<open>/en/services/\<close> the Japanese URL is \<open>/services/\<close>; the root \<open>/\<close> goes to \<open>/en/\<close>
  and not to the bare \<open>/en\<close>; \<open>/en/\<close> and the bare \<open>/en\<close> go back to \<open>/\<close>; and the
  path \<open>/en\<close> alone is an English page whose relative path is the root.
\<close>

theorem buildLanguageURL_concrete_paths:
  "buildLanguageURL ''en'' (w\<lparr>pathname := ''/services/'', hash := ''''\<rparr>) = ''/en/services/''
   \<and> buildLanguageURL ''ja'' (w\<lparr>pathname := ''/en/services/'', hash := ''''\<rparr>) = ''/services/''
   \<and> buildLanguageURL ''en'' (w\<lparr>pathname := ''/'', hash := ''''\<rparr>) = ''/en/''
   \<and> buildLanguageURL ''en'' (w\<lparr>pathname := ''/'', hash := ''''\<rparr>) \<noteq> ''/en''
   \<and> buildLanguageURL ''ja'' (w\<lparr>pathname := ''/en/'', hash := ''''\<rparr>) = ''/''
   \<and> buildLanguageURL ''ja'' (w\<lparr>pathname := ''/en'', hash := ''''\<rparr>) = ''/''
   \<and> getLanguageFromURL (w\<lparr>pathname := ''/en''\<rparr>) = ''en''
   \<and> getRelativePath (w\<lparr>pathname := ''/en''\<rparr>) = ''/''"
  by (simp add: buildLanguageURL_def getRelativePath_def getLanguageFromURL_def
      startsWith_def substring_def)

text \<open>
  C9.  \<open>detectLanguage\<close> returns what \<open>getLanguageFromURL\<close> returns: whatever the stored
  preference, the state of the storage and the browser's language tags are, they do not
  change its result.
\<close>

theorem detectLanguage_is_getLanguageFromURL:
  "detectLanguage w = getLanguageFromURL w
   \<and> detectLanguage (w\<lparr>nav_language := l, nav_userLanguage := u, storage_access := a,
                        storage_full := f, stored := s\<rparr>) = getLanguageFromURL w"
  by (simp add: detectLanguage_def getLanguageFromURL_def Let_def)


section \<open>Facts about the component loader\<close>

lemma loadComponent_settle_eq:
  "loadComponent_settle name sel outcome pg =
     (case fetched_markup outcome of
        None \<Rightarrow> pg\<lparr>trace := trace pg @ [Error name (failure_of outcome)]\<rparr>
      | Some html \<Rightarrow> pg\<lparr>placeholders := (placeholders pg)(sel \<mapsto> html),
                        elements := set_innerHTML sel (parse_html pg html) (elements pg),
                        trace := trace pg @ [Dispatch name sel]\<rparr>)"
  by (simp add: loadComponent_settle_def try_inject_def fetched_markup_def failure_of_def
      split: fetch_outcome.split option.split)

lemma map_of_components:
  "map_of components name =
     (if name = ''header'' then Some \<lparr>selector = ''#header-placeholder'', file_name = ''header.html''\<rparr>
      else if name = ''footer'' then Some \<lparr>selector = ''#footer-placeholder'', file_name = ''footer.html''\<rparr>
      else None)"
  by (simp add: components_def)

lemma loadComponent_start_eq:
  "map_of components name = Some c \<Longrightarrow>
   loadComponent_start name pg =
     (case placeholders pg (selector c) of
        None \<Rightarrow> (pg\<lparr>trace := trace pg @ [Warn (PlaceholderNotFound (selector c))]\<rparr>, None)
      | Some _ \<Rightarrow> (pg\<lparr>trace := trace pg @ [Fetch (fetch_url name pg)]\<rparr>,
                   Some (selector c, fetch_url name pg)))"
  by (simp add: loadComponent_start_def fetch_url_def Let_def split: option.split)

lemma Object_keys_eq: "Object_keys = [''header'', ''footer'']"
  by (simp add: Object_keys_def components_def)

lemma two_orders:
  assumes "distinct order" and "set order = set Object_keys"
  shows "order = [''header'', ''footer''] \<or> order = [''footer'', ''header'']"
proof -
  have s: "set order = {''header'', ''footer''}" using assms(2) by (simp add: Object_keys_eq)
  have "length order = 2"
    using assms(1) s distinct_card [of order] by simp
  then obtain a b where ab: "order = [a, b]"
    by (cases order; cases "tl order"; cases "tl (tl order)") auto
  then show ?thesis using s assms(1) by (auto simp: doubleton_eq_iff)
qed

lemma isEnglishPage_trace [simp]: "isEnglishPage (pg\<lparr>trace := t\<rparr>) = isEnglishPage pg"
  by (simp add: isEnglishPage_def)

lemma fetch_url_trace [simp]: "fetch_url name (pg\<lparr>trace := t\<rparr>) = fetch_url name pg"
  by (simp add: fetch_url_def getComponentFile_def split: option.split)

lemma start_header:
  "loadComponent_start ''header'' pg =
     (case placeholders pg ''#header-placeholder'' of
        None \<Rightarrow> (pg\<lparr>trace := trace pg @ [Warn (PlaceholderNotFound ''#header-placeholder'')]\<rparr>, None)
      | Some _ \<Rightarrow> (pg\<lparr>trace := trace pg @ [Fetch (fetch_url ''header'' pg)]\<rparr>,
                   Some (''#header-placeholder'', fetch_url ''header'' pg)))"
  using loadComponent_start_eq [of "''header''" _ pg]
  by (simp add: map_of_components split: option.split)

lemma start_footer:
  "loadComponent_start ''footer'' pg =
     (case placeholders pg ''#footer-placeholder'' of
        None \<Rightarrow> (pg\<lparr>trace := trace pg @ [Warn (PlaceholderNotFound ''#footer-placeholder'')]\<rparr>, None)
      | Some _ \<Rightarrow> (pg\<lparr>trace := trace pg @ [Fetch (fetch_url ''footer'' pg)]\<rparr>,
                   Some (''#footer-placeholder'', fetch_url ''footer'' pg)))"
  using loadComponent_start_eq [of "''footer''" _ pg]
  by (simp add: map_of_components split: option.split)

lemma start_all_keys:
  "start_all Object_keys pg =
     (pg\<lparr>trace := trace pg
          @ [case placeholders pg ''#header-placeholder'' of
               None \<Rightarrow> Warn (PlaceholderNotFound ''#header-placeholder'')
             | Some _ \<Rightarrow> Fetch (fetch_url ''header'' pg)]
          @ [case placeholders pg ''#footer-placeholder'' of
               None \<Rightarrow> Warn (PlaceholderNotFound ''#footer-placeholder'')
             | Some _ \<Rightarrow> Fetch (fetch_url ''footer'' pg)]\<rparr>,
      (case placeholders pg ''#header-placeholder'' of
         None \<Rightarrow> []
       | Some _ \<Rightarrow> [(''header'', ''#header-placeholder'', fetch_url ''header'' pg)])
      @ (case placeholders pg ''#footer-placeholder'' of
         None \<Rightarrow> []
       | Some _ \<Rightarrow> [(''footer'', ''#footer-placeholder'', fetch_url ''footer'' pg)]))"
  by (simp add: Object_keys_eq start_header start_footer split: option.split)

lemma start_all_trace:
  "fst (start_all Object_keys pg) = pg\<lparr>trace := trace pg @ map (\<lambda>n. start_event n pg) Object_keys\<rparr>"
  unfolding start_all_keys
  by (simp add: Object_keys_eq start_event_def map_of_components split: option.split)

lemma find_awaited_header:
  "find (\<lambda>a. fst a = ''header'') (snd (start_all Object_keys pg)) =
     (case placeholders pg ''#header-placeholder'' of
        None \<Rightarrow> None
      | Some _ \<Rightarrow> Some (''header'', ''#header-placeholder'', fetch_url ''header'' pg))"
  by (simp add: start_all_keys split: option.split)

lemma find_awaited_footer:
  "find (\<lambda>a. fst a = ''footer'') (snd (start_all Object_keys pg)) =
     (case placeholders pg ''#footer-placeholder'' of
        None \<Rightarrow> None
      | Some _ \<Rightarrow> Some (''footer'', ''#footer-placeholder'', fetch_url ''footer'' pg))"
  by (simp add: start_all_keys split: option.split)

lemma settle_step:
  assumes "name \<in> set Object_keys"
  shows "(case find (\<lambda>a. fst a = name) (snd (start_all Object_keys pg0)) of
            None \<Rightarrow> pg
          | Some (n, sel, url) \<Rightarrow>
              (case net url of
                 None \<Rightarrow> pg
               | Some outcome \<Rightarrow> loadComponent_settle name sel outcome pg))
         = settle_one net pg0 name pg"
proof -
  consider "name = ''header''" | "name = ''footer''"
    using assms by (auto simp: Object_keys_eq)
  then show ?thesis
  proof cases
    case 1
    then show ?thesis
      by (simp add: find_awaited_header settle_one_def map_of_components split: option.split)
  next
    case 2
    then show ?thesis
      by (simp add: find_awaited_footer settle_one_def map_of_components split: option.split)
  qed
qed

lemma settle_all_fold:
  "set order \<subseteq> set Object_keys \<Longrightarrow>
   settle_all net (snd (start_all Object_keys pg0)) order pg = fold (settle_one net pg0) order pg"
proof (induction order arbitrary: pg)
  case Nil
  then show ?case by simp
next
  case (Cons name order)
  then have "name \<in> set Object_keys" and "set order \<subseteq> set Object_keys" by auto
  then show ?case using Cons.IH by (simp add: settle_step)
qed

lemma settle_one_trace:
  "trace (settle_one net pg0 name pg) = trace pg @ settle_events net name pg0"
  by (simp add: settle_one_def settle_events_def loadComponent_settle_eq settled_event_def
      split: option.split)

lemma fold_settle_trace:
  "trace (fold (settle_one net pg0) order pg) = trace pg @ concat (map (\<lambda>n. settle_events net n pg0) order)"
  by (induction order arbitrary: pg) (simp_all add: settle_one_trace)

lemma all_settled_keys:
  "all_settled net (snd (start_all Object_keys pg)) = every_request_settles net pg"
  by (simp add: start_all_keys all_settled_def every_request_settles_def components_def
      split: option.split)

lemma settle_one_placeholders:
  "placeholders (settle_one net pg0 name pg) =
     (case injected net name pg0 of
        None \<Rightarrow> placeholders pg
      | Some html \<Rightarrow> (placeholders pg)(selector (the (map_of components name)) \<mapsto> html))"
  by (simp add: settle_one_def injected_def loadComponent_settle_eq split: option.split)

lemma fold_settle_placeholders_trace:
  "placeholders (fold (settle_one net pg0) order (pg\<lparr>trace := t\<rparr>))
   = placeholders (fold (settle_one net pg0) order pg)"
  by (induction order arbitrary: t rule: rev_induct)
     (simp_all add: settle_one_placeholders split: option.split)

lemma settle_one_frame:
  "flowbite (settle_one net pg0 name pg) = flowbite pg"
  "pathname (settle_one net pg0 name pg) = pathname pg"
  "parse_html (settle_one net pg0 name pg) = parse_html pg"
  by (simp_all add: settle_one_def loadComponent_settle_eq split: option.split)

lemma fold_settle_frame:
  "flowbite (fold (settle_one net pg0) order pg) = flowbite pg"
  "pathname (fold (settle_one net pg0) order pg) = pathname pg"
  "parse_html (fold (settle_one net pg0) order pg) = parse_html pg"
  by (induction order arbitrary: pg) (simp_all add: settle_one_frame)

lemma settle_one_elements:
  "elements (settle_one net pg0 name pg) =
     (case injected net name pg0 of
        None \<Rightarrow> elements pg
      | Some html \<Rightarrow>
          set_innerHTML (selector (the (map_of components name))) (parse_html pg html)
            (elements pg))"
  by (simp add: settle_one_def injected_def loadComponent_settle_eq split: option.split)

lemma fold_settle_elements:
  "parse_html pg = parse_html pg0 \<Longrightarrow>
   elements (fold (settle_one net pg0) order pg) =
     fold (\<lambda>name es. case injected net name pg0 of
                        None \<Rightarrow> es
                      | Some html \<Rightarrow>
                          set_innerHTML (selector (the (map_of components name)))
                            (parse_html pg0 html) es)
       order (elements pg)"
proof (induction order arbitrary: pg)
  case Nil
  then show ?case by simp
next
  case (Cons name order)
  have "parse_html (settle_one net pg0 name pg) = parse_html pg0"
    using Cons.prems by (simp add: settle_one_frame)
  then show ?case
    using Cons.IH [of "settle_one net pg0 name pg"] Cons.prems
    by (simp add: settle_one_elements split: option.split)
qed

lemma normalizedPath_pathname:
  "pathname pg' = pathname pg \<Longrightarrow> normalizedPath pg' = normalizedPath pg"
  by (simp add: normalizedPath_def isEnglishPage_def)

lemma highlightActiveNav_eq:
  "highlightActiveNav pg = pg\<lparr>elements := map (highlighted pg) (elements pg)\<rparr>"
  by (simp add: highlightActiveNav_def highlighted_def Let_def)

lemma highlighted_pathname:
  assumes "pathname pg' = pathname pg"
  shows "highlighted pg' = highlighted pg"
proof -
  have "normalizedPath pg' = normalizedPath pg"
    using assms by (rule normalizedPath_pathname)
  then show ?thesis by (simp add: highlighted_def fun_eq_iff)
qed

lemma loadAll_eq:
  assumes "set order \<subseteq> set Object_keys"
  shows "loadAll net order pg =
     (let pg2 = fold (settle_one net pg) order (started pg)
      in if every_request_settles net pg
         then (case flowbite pg of
                 NoHook \<Rightarrow> Returned (highlightActiveNav pg2)
               | HookReturns \<Rightarrow>
                   Returned (highlightActiveNav (pg2\<lparr>trace := trace pg2 @ [Hook ''initFlowbite'']\<rparr>))
               | HookThrows \<Rightarrow> Threw (pg2\<lparr>trace := trace pg2 @ [Hook ''initFlowbite'']\<rparr>))
         else Waiting pg2)"
proof -
  have "settle_all net (snd (start_all Object_keys pg)) order (fst (start_all Object_keys pg))
        = fold (settle_one net pg) order (fst (start_all Object_keys pg))"
    using assms by (rule settle_all_fold)
  moreover have "flowbite (fold (settle_one net pg) order (started pg)) = flowbite pg"
    by (simp add: fold_settle_frame started_def)
  ultimately show ?thesis
    by (simp add: loadAll_def case_prod_beta all_settled_keys start_all_trace Let_def
        initFlowbite_def started_def split: global_hook.split)
qed

lemma settled_trace:
  "trace (fold (settle_one net pg) order (started pg)) =
     trace pg @ map (\<lambda>n. start_event n pg) Object_keys
     @ concat (map (\<lambda>n. settle_events net n pg) order)"
  by (simp add: fold_settle_trace started_def)

lemma settled_elements_eq:
  "elements (fold (settle_one net pg) order (started pg)) = settled_elements net order pg"
  using fold_settle_elements [of "started pg" pg net order]
  by (simp add: started_def settled_elements_def)

lemma settled_pathname:
  "pathname (fold (settle_one net pg) order (started pg)) = pathname pg"
  by (simp add: fold_settle_frame started_def)

lemma settled_placeholders:
  "placeholders (fold (settle_one net pg) order (started pg))
     = placeholders (fold (settle_one net pg) order pg)"
  by (simp add: started_def fold_settle_placeholders_trace)

lemma loadAll_waiting:
  assumes "set order \<subseteq> set Object_keys" and "\<not> every_request_settles net pg"
  shows "loadAll net order pg = Waiting (fold (settle_one net pg) order (started pg))"
  using assms(2) by (simp add: loadAll_eq [OF assms(1)] Let_def)

lemma loadAll_threw:
  assumes "set order \<subseteq> set Object_keys" and "every_request_settles net pg"
    and "flowbite pg = HookThrows"
  shows "loadAll net order pg =
           Threw ((fold (settle_one net pg) order (started pg))
                    \<lparr>trace := trace pg @ map (\<lambda>n. start_event n pg) Object_keys
                        @ concat (map (\<lambda>n. settle_events net n pg) order)
                        @ [Hook ''initFlowbite'']\<rparr>)"
  using assms(2,3) by (simp add: loadAll_eq [OF assms(1)] Let_def settled_trace)

lemma loadAll_returned:
  assumes "set order \<subseteq> set Object_keys" and "every_request_settles net pg"
    and "flowbite pg \<noteq> HookThrows"
  shows "loadAll net order pg =
           Returned ((fold (settle_one net pg) order (started pg))
                    \<lparr>trace := trace pg @ map (\<lambda>n. start_event n pg) Object_keys
                        @ concat (map (\<lambda>n. settle_events net n pg) order)
                        @ (if flowbite pg = HookReturns then [Hook ''initFlowbite''] else []),
                      elements := map (highlighted pg) (settled_elements net order pg)\<rparr>)"
proof (cases "flowbite pg")
  case NoHook
  have "highlighted (fold (settle_one net pg) order (started pg)) = highlighted pg"
    by (rule highlighted_pathname) (rule settled_pathname)
  then show ?thesis
    using assms(2) NoHook
    by (simp add: loadAll_eq [OF assms(1)] Let_def highlightActiveNav_eq settled_elements_eq
        settled_trace [symmetric])
next
  case HookReturns
  have "highlighted ((fold (settle_one net pg) order (started pg))\<lparr>trace := t\<rparr>) = highlighted pg"
    for t
    by (rule highlighted_pathname) (simp add: settled_pathname)
  then show ?thesis
    using assms(2) HookReturns
    by (simp add: loadAll_eq [OF assms(1)] Let_def highlightActiveNav_eq settled_elements_eq
        settled_trace)
next
  case HookThrows
  then show ?thesis using assms(3) by simp
qed

lemma loadAll_placeholders:
  assumes "set order \<subseteq> set Object_keys"
  shows "placeholders (page_of (loadAll net order pg))
           = placeholders (fold (settle_one net pg) order pg)"
  by (simp add: loadAll_eq [OF assms] Let_def page_of_def highlightActiveNav_eq
      settled_placeholders split: global_hook.split)

lemma no_hook_start: "\<not> is_hook (start_event n pg)"
  by (simp add: start_event_def is_hook_def split: option.split)

lemma no_hook_settle: "e \<in> set (settle_events net n pg) \<Longrightarrow> \<not> is_hook e"
  by (auto simp: settle_events_def settled_event_def is_hook_def split: option.splits)

lemma loadAll_placeholders_two:
  assumes "order = [''header'', ''footer''] \<or> order = [''footer'', ''header'']"
    and "(name, c) \<in> set components"
  shows "placeholders (page_of (loadAll net order pg)) (selector c)
           = (case injected net name pg of
                None \<Rightarrow> placeholders pg (selector c)
              | Some html \<Rightarrow> Some html)"
proof -
  have sub: "set order \<subseteq> set Object_keys" using assms(1) by (auto simp: Object_keys_eq)
  have nc: "(name = ''header'' \<and> selector c = ''#header-placeholder'')
            \<or> (name = ''footer'' \<and> selector c = ''#footer-placeholder'')"
    using assms(2) by (auto simp: components_def)
  have sel: "selector (the (map_of components ''header'')) = ''#header-placeholder''"
    "selector (the (map_of components ''footer'')) = ''#footer-placeholder''"
    by (simp_all add: map_of_components)
  show ?thesis
    using assms(1) nc
    by (auto simp: loadAll_placeholders [OF sub] settle_one_placeholders sel split: option.splits)
qed

lemma set_set_innerHTML:
  "set (set_innerHTML sel created es)
     = {e \<in> set es. inside e \<noteq> Some sel} \<union> (\<lambda>e. e\<lparr>inside := Some sel\<rparr>) ` set created"
  by (auto simp: set_innerHTML_def)

lemma settled_elements_two:
  assumes "order = [''header'', ''footer''] \<or> order = [''footer'', ''header'']"
    and "(name, c) \<in> set components" and "injected net name pg = Some html"
    and "e \<in> set (parse_html pg html)"
  shows "e\<lparr>inside := Some (selector c)\<rparr> \<in> set (settled_elements net order pg)"
proof -
  have nc: "(name = ''header'' \<and> selector c = ''#header-placeholder'')
            \<or> (name = ''footer'' \<and> selector c = ''#footer-placeholder'')"
    using assms(2) by (auto simp: components_def)
  have sel: "selector (the (map_of components ''header'')) = ''#header-placeholder''"
    "selector (the (map_of components ''footer'')) = ''#footer-placeholder''"
    by (simp_all add: map_of_components)
  show ?thesis
    using assms(1,3,4) nc
    by (auto simp: settled_elements_def sel set_set_innerHTML split: option.splits)
qed

lemma is_active_activate: "is_active (activate e)"
  by (auto simp: is_active_def activate_def classList_add_def classList_remove_def)

lemma fetched_markup_None_iff:
  "(fetched_markup outcome = None)
     = (outcome = Rejected
        \<or> (\<exists>status body. outcome = Responded status body \<and> (\<not> response_ok status \<or> body = None)))"
  by (cases outcome) (auto simp: fetched_markup_def)

text \<open>
  C7.  For a registered component whose placeholder exists and whose request settles,
  \<open>loadComponent\<close> returns.  When the request failed (the fetch was rejected, the
  status is not a success, or the body could not be read) the placeholders and the
  elements of the document are as before and the failure is logged with
  \<open>console.error\<close>.  When it succeeded the placeholder holds the fetched markup, the
  elements that markup creates are inside it, and \<open>componentLoaded\<close> is dispatched with
  the component name and the placeholder.  The event is dispatched exactly when the request succeeded, and
  the placeholders change only then.
\<close>

theorem loadComponent_fetch_outcome:
  assumes "map_of components name = Some c"
    and "placeholders pg (selector c) \<noteq> None"
    and "net (fetch_url name pg) = Some outcome"
  shows "\<exists>pg'. loadComponent net name pg = Some pg'
           \<and> (fetched_markup outcome = None \<longrightarrow>
                placeholders pg' = placeholders pg
                \<and> elements pg' = elements pg
                \<and> trace pg' = trace pg @ [Fetch (fetch_url name pg), Error name (failure_of outcome)])
           \<and> (\<forall>html. fetched_markup outcome = Some html \<longrightarrow>
                placeholders pg' = (placeholders pg)(selector c \<mapsto> html)
                \<and> elements pg' = set_innerHTML (selector c) (parse_html pg html) (elements pg)
                \<and> trace pg' = trace pg @ [Fetch (fetch_url name pg), Dispatch name (selector c)])
           \<and> (Dispatch name (selector c) \<in> set (drop (length (trace pg)) (trace pg'))
                \<longleftrightarrow> fetched_markup outcome \<noteq> None)
           \<and> (placeholders pg' \<noteq> placeholders pg \<longrightarrow> fetched_markup outcome \<noteq> None)
           \<and> ((fetched_markup outcome = None)
                = (outcome = Rejected
                   \<or> (\<exists>status body. outcome = Responded status body
                         \<and> (\<not> response_ok status \<or> body = None))))"
  using assms fetched_markup_None_iff [of outcome]
  by (auto simp: loadComponent_def loadComponent_start_eq loadComponent_settle_eq
      split: option.splits)

text \<open>
  On the English page \<open>/en/pages/about/\<close> with a header that answers 404 and a footer
  that answers 200.
\<close>

theorem loadComponent_fetch_outcome_witness:
  "(\<exists>pg'. loadComponent example_network ''header'' example_page = Some pg'
          \<and> placeholders pg' = placeholders example_page
          \<and> trace pg' = [Fetch ''/components/header-en.html'', Error ''header'' (HttpError 404)])
   \<and> (\<exists>pg'. loadComponent example_network ''footer'' example_page = Some pg'
          \<and> placeholders pg' ''#footer-placeholder'' = Some ''<footer/>''
          \<and> trace pg' = [Fetch ''/components/footer-en.html'',
                          Dispatch ''footer'' ''#footer-placeholder''])"
proof -
  let ?h = "\<lparr>selector = ''#header-placeholder'', file_name = ''header.html''\<rparr>"
  let ?f = "\<lparr>selector = ''#footer-placeholder'', file_name = ''footer.html''\<rparr>"
  have c: "map_of components ''header'' = Some ?h" "map_of components ''footer'' = Some ?f"
    by (simp_all add: components_def)
  have p: "placeholders example_page (selector ?h) \<noteq> None"
    "placeholders example_page (selector ?f) \<noteq> None"
    by (simp_all add: example_page_def)
  have u: "fetch_url ''header'' example_page = ''/components/header-en.html''"
    "fetch_url ''footer'' example_page = ''/components/footer-en.html''"
    by (simp_all add: fetch_url_def componentsPath_def getComponentFile_def components_def
        isEnglishPage_def template_def startsWith_def example_page_def Let_def)
  have n: "example_network (fetch_url ''header'' example_page) = Some (Responded 404 (Some ''Not Found''))"
    "example_network (fetch_url ''footer'' example_page) = Some (Responded 200 (Some ''<footer/>''))"
    by (simp_all add: u example_network_def)
  have m: "fetched_markup (Responded 404 (Some ''Not Found'')) = None"
    "fetched_markup (Responded 200 (Some ''<footer/>'')) = Some ''<footer/>''"
    "failure_of (Responded 404 (Some ''Not Found'')) = HttpError 404"
    by (simp_all add: fetched_markup_def failure_of_def response_ok_def)
  have t: "trace example_page = []" by (simp add: example_page_def)
  show ?thesis
    using loadComponent_fetch_outcome [where net = example_network, OF c(1) p(1) n(1)]
      loadComponent_fetch_outcome [where net = example_network, OF c(2) p(2) n(2)]
    by (auto simp: m u t)
qed

text \<open>
  C3, as the code has it.  For every order in which the requests settle, and provided
  the global \<open>initFlowbite\<close>, when there is one, returns: when every request settles,
  \<open>loadAll\<close> returns; its trace is the starts of all components, then what each settled
  request left (a dispatched event or a logged failure), then the one call of the
  library hook when the library is present; and the elements of the document are those
  present once every request has settled, each as \<open>highlightActiveNav\<close> leaves it, so
  that every element a successful request has injected is there, highlighted.  While a
  request never settles \<open>loadAll\<close> waits and neither post-step has taken place.  When
  the hook throws \<open>loadAll\<close> throws after the call and no element is highlighted.
  Each placeholder ends with the markup of its own request when that succeeded and is
  unchanged otherwise, whatever the other component did.  Without the library
  \<open>initFlowbite\<close> returns and changes nothing.
\<close>

theorem loadAll_post_steps_once:
  assumes "distinct order" and "set order = set Object_keys"
  shows "(every_request_settles net pg \<and> flowbite pg \<noteq> HookThrows \<longrightarrow>
            (\<exists>pg'. loadAll net order pg = Returned pg'
               \<and> trace pg' = trace pg @ map (\<lambda>n. start_event n pg) Object_keys
                     @ concat (map (\<lambda>n. settle_events net n pg) order)
                     @ (if flowbite pg = HookReturns then [Hook ''initFlowbite''] else [])
               \<and> elements pg' = map (highlighted pg) (settled_elements net order pg)
               \<and> (\<forall>(name, c) \<in> set components. \<forall>html.
                     injected net name pg = Some html \<longrightarrow>
                     (\<forall>e \<in> set (parse_html pg html).
                        highlighted pg (e\<lparr>inside := Some (selector c)\<rparr>) \<in> set (elements pg')))))
         \<and> (\<not> every_request_settles net pg \<longrightarrow>
            (\<exists>pg'. loadAll net order pg = Waiting pg'
               \<and> trace pg' = trace pg @ map (\<lambda>n. start_event n pg) Object_keys
                     @ concat (map (\<lambda>n. settle_events net n pg) order)
               \<and> elements pg' = settled_elements net order pg))
         \<and> (every_request_settles net pg \<and> flowbite pg = HookThrows \<longrightarrow>
            (\<exists>pg'. loadAll net order pg = Threw pg'
               \<and> trace pg' = trace pg @ map (\<lambda>n. start_event n pg) Object_keys
                     @ concat (map (\<lambda>n. settle_events net n pg) order)
                     @ [Hook ''initFlowbite'']
               \<and> elements pg' = settled_elements net order pg))
         \<and> (\<forall>e \<in> set (map (\<lambda>n. start_event n pg) Object_keys
                        @ concat (map (\<lambda>n. settle_events net n pg) order)). \<not> is_hook e)
         \<and> (\<forall>(name, c) \<in> set components.
               placeholders (page_of (loadAll net order pg)) (selector c)
                 = (case injected net name pg of
                      None \<Rightarrow> placeholders pg (selector c)
                    | Some html \<Rightarrow> Some html))
         \<and> (flowbite pg = NoHook \<longrightarrow> initFlowbite pg = Returned pg)"
proof -
  have sub: "set order \<subseteq> set Object_keys" using assms(2) by simp
  have two: "order = [''header'', ''footer''] \<or> order = [''footer'', ''header'']"
    using two_orders [OF assms] .
  have a: "every_request_settles net pg \<and> flowbite pg \<noteq> HookThrows \<longrightarrow>
            (\<exists>pg'. loadAll net order pg = Returned pg'
               \<and> trace pg' = trace pg @ map (\<lambda>n. start_event n pg) Object_keys
                     @ concat (map (\<lambda>n. settle_events net n pg) order)
                     @ (if flowbite pg = HookReturns then [Hook ''initFlowbite''] else [])
               \<and> elements pg' = map (highlighted pg) (settled_elements net order pg)
               \<and> (\<forall>(name, c) \<in> set components. \<forall>html.
                     injected net name pg = Some html \<longrightarrow>
                     (\<forall>e \<in> set (parse_html pg html).
                        highlighted pg (e\<lparr>inside := Some (selector c)\<rparr>) \<in> set (elements pg'))))"
  proof
    assume h: "every_request_settles net pg \<and> flowbite pg \<noteq> HookThrows"
    let ?pg' = "(fold (settle_one net pg) order (started pg))
                    \<lparr>trace := trace pg @ map (\<lambda>n. start_event n pg) Object_keys
                        @ concat (map (\<lambda>n. settle_events net n pg) order)
                        @ (if flowbite pg = HookReturns then [Hook ''initFlowbite''] else []),
                      elements := map (highlighted pg) (settled_elements net order pg)\<rparr>"
    have r: "loadAll net order pg = Returned ?pg'"
      using h by (intro loadAll_returned [OF sub]) simp_all
    have "\<forall>(name, c) \<in> set components. \<forall>html.
            injected net name pg = Some html \<longrightarrow>
            (\<forall>e \<in> set (parse_html pg html).
               highlighted pg (e\<lparr>inside := Some (selector c)\<rparr>) \<in> set (elements ?pg'))"
      using settled_elements_two [OF two] by fastforce
    then show "\<exists>pg'. loadAll net order pg = Returned pg'
               \<and> trace pg' = trace pg @ map (\<lambda>n. start_event n pg) Object_keys
                     @ concat (map (\<lambda>n. settle_events net n pg) order)
                     @ (if flowbite pg = HookReturns then [Hook ''initFlowbite''] else [])
               \<and> elements pg' = map (highlighted pg) (settled_elements net order pg)
               \<and> (\<forall>(name, c) \<in> set components. \<forall>html.
                     injected net name pg = Some html \<longrightarrow>
                     (\<forall>e \<in> set (parse_html pg html).
                        highlighted pg (e\<lparr>inside := Some (selector c)\<rparr>) \<in> set (elements pg')))"
      using r by (intro exI [of _ ?pg']) simp
  qed
  have b: "\<not> every_request_settles net pg \<longrightarrow>
            (\<exists>pg'. loadAll net order pg = Waiting pg'
               \<and> trace pg' = trace pg @ map (\<lambda>n. start_event n pg) Object_keys
                     @ concat (map (\<lambda>n. settle_events net n pg) order)
               \<and> elements pg' = settled_elements net order pg)"
    using loadAll_waiting [OF sub] by (simp add: settled_trace settled_elements_eq)
  have c: "every_request_settles net pg \<and> flowbite pg = HookThrows \<longrightarrow>
            (\<exists>pg'. loadAll net order pg = Threw pg'
               \<and> trace pg' = trace pg @ map (\<lambda>n. start_event n pg) Object_keys
                     @ concat (map (\<lambda>n. settle_events net n pg) order)
                     @ [Hook ''initFlowbite'']
               \<and> elements pg' = settled_elements net order pg)"
    using loadAll_threw [OF sub] by (simp add: settled_elements_eq)
  have d: "\<forall>e \<in> set (map (\<lambda>n. start_event n pg) Object_keys
                        @ concat (map (\<lambda>n. settle_events net n pg) order)). \<not> is_hook e"
    using no_hook_start no_hook_settle by auto
  have e: "\<forall>(name, c) \<in> set components.
               placeholders (page_of (loadAll net order pg)) (selector c)
                 = (case injected net name pg of
                      None \<Rightarrow> placeholders pg (selector c)
                    | Some html \<Rightarrow> Some html)"
    using loadAll_placeholders_two [OF two] by blast
  have f: "flowbite pg = NoHook \<longrightarrow> initFlowbite pg = Returned pg"
    by (simp add: initFlowbite_def)
  show ?thesis using a b c d e f by blast
qed

lemma example_requests:
  "fetch_url ''header'' (example_page\<lparr>flowbite := h\<rparr>) = ''/components/header-en.html''"
  "fetch_url ''footer'' (example_page\<lparr>flowbite := h\<rparr>) = ''/components/footer-en.html''"
  "placeholders example_page ''#header-placeholder'' = Some []"
  "placeholders example_page ''#footer-placeholder'' = Some []"
  "trace example_page = []"
  "parse_html example_page = example_parser"
  by (simp_all add: fetch_url_def componentsPath_def getComponentFile_def components_def
      isEnglishPage_def template_def startsWith_def example_page_def Let_def)

lemma example_header_answers:
  "example_network_header ''/components/header-en.html'' = Some (Responded 200 (Some ''<nav/>''))"
  "example_network_header ''/components/footer-en.html''
     = Some (Responded 404 (Some ''Not Found''))"
  "fetched_markup (Responded 200 (Some ''<nav/>'')) = Some ''<nav/>''"
  "fetched_markup (Responded 404 (Some ''Not Found'')) = None"
  "failure_of (Responded 404 (Some ''Not Found'')) = HttpError 404"
  by (simp_all add: example_network_header_def fetched_markup_def failure_of_def response_ok_def)

lemma example_injected:
  "injected example_network_header ''header'' (example_page\<lparr>flowbite := h\<rparr>) = Some ''<nav/>''"
  "injected example_network_header ''footer'' (example_page\<lparr>flowbite := h\<rparr>) = None"
  "every_request_settles example_network_header (example_page\<lparr>flowbite := h\<rparr>)"
  by (simp_all add: injected_def every_request_settles_def components_def example_requests
      example_header_answers)

lemma example_settled_elements:
  "settled_elements example_network_header order (example_page\<lparr>flowbite := h\<rparr>)
     = (if ''header'' \<in> set order
        then [\<lparr>classes = [''nav-link'', ''text-gray-900''], data_page = Some ''home'',
               aria_current = None, inside = None\<rparr>,
              \<lparr>classes = [''nav-link'', ''text-gray-900''], data_page = Some ''about'',
               aria_current = None, inside = None\<rparr>,
              \<lparr>classes = [''nav-link'', ''text-gray-900''], data_page = Some ''home'',
               aria_current = None, inside = Some ''#header-placeholder''\<rparr>,
              \<lparr>classes = [''nav-link'', ''text-gray-900''], data_page = Some ''about'',
               aria_current = None, inside = Some ''#header-placeholder''\<rparr>]
        else elements example_page)"
  if "order = [''header'', ''footer''] \<or> order = [''footer'', ''header'']"
proof -
  have el: "elements example_page
              = [\<lparr>classes = [''nav-link'', ''text-gray-900''], data_page = Some ''home'',
                   aria_current = None, inside = None\<rparr>,
                 \<lparr>classes = [''nav-link'', ''text-gray-900''], data_page = Some ''about'',
                   aria_current = None, inside = None\<rparr>]"
    by (simp add: example_page_def)
  have sel: "selector (the (map_of components ''header'')) = ''#header-placeholder''"
    by (simp add: components_def)
  have pr: "parse_html example_page = example_parser"
    by (rule example_requests)
  show ?thesis
    using that
    by (auto simp: settled_elements_def example_injected el sel pr set_innerHTML_def
        example_parser_def)
qed

text \<open>
  The header answers 200 with its two links and the footer 404, the footer first, on
  \<open>/en/pages/about/\<close> without the library: \<open>loadAll\<close> returns, the footer placeholder
  stays empty, the header placeholder is filled, and the injected link \<open>about\<close> is
  active.
\<close>

theorem loadAll_post_steps_once_witness:
  "\<exists>pg'. loadAll example_network_header [''footer'', ''header''] example_page = Returned pg'
      \<and> trace pg' = [Fetch ''/components/header-en.html'', Fetch ''/components/footer-en.html'',
                      Error ''footer'' (HttpError 404),
                      Dispatch ''header'' ''#header-placeholder'']
      \<and> elements pg'
          = [\<lparr>classes = [''nav-link'', ''text-gray-900''], data_page = Some ''home'',
               aria_current = None, inside = None\<rparr>,
             \<lparr>classes = [''nav-link'', ''text-blue-600'', ''md:text-blue-600''],
               data_page = Some ''about'', aria_current = Some ''page'', inside = None\<rparr>,
             \<lparr>classes = [''nav-link'', ''text-gray-900''], data_page = Some ''home'',
               aria_current = None, inside = Some ''#header-placeholder''\<rparr>,
             \<lparr>classes = [''nav-link'', ''text-blue-600'', ''md:text-blue-600''],
               data_page = Some ''about'', aria_current = Some ''page'',
               inside = Some ''#header-placeholder''\<rparr>]
      \<and> placeholders pg' ''#header-placeholder'' = Some ''<nav/>''
      \<and> placeholders pg' ''#footer-placeholder'' = Some []"
proof -
  have d: "distinct [''footer'', ''header'']" by simp
  have s: "set [''footer'', ''header''] = set Object_keys"
    by (auto simp: Object_keys_def components_def)
  have x: "example_page\<lparr>flowbite := NoHook\<rparr> = example_page"
    by (simp add: example_page_def)
  have r: "fetch_url ''header'' example_page = ''/components/header-en.html''"
    "fetch_url ''footer'' example_page = ''/components/footer-en.html''"
    "placeholders example_page ''#header-placeholder'' = Some []"
    "placeholders example_page ''#footer-placeholder'' = Some []"
    "trace example_page = []"
    using example_requests(1,2) [of NoHook] example_requests(3-5) by (simp_all add: x)
  have i: "injected example_network_header ''header'' example_page = Some ''<nav/>''"
    "injected example_network_header ''footer'' example_page = None"
    "every_request_settles example_network_header example_page"
    using example_injected [of NoHook] by (simp_all add: x)
  have f: "flowbite example_page = NoHook" by (simp add: example_page_def)
  have se: "map (\<lambda>n. start_event n example_page) Object_keys
              = [Fetch ''/components/header-en.html'', Fetch ''/components/footer-en.html'']"
    by (simp add: Object_keys_def start_event_def components_def r)
  have st: "settle_events example_network_header ''footer'' example_page
              = [Error ''footer'' (HttpError 404)]"
    "settle_events example_network_header ''header'' example_page
       = [Dispatch ''header'' ''#header-placeholder'']"
    by (simp_all add: settle_events_def settled_event_def components_def r
        example_header_answers)
  have el: "settled_elements example_network_header [''footer'', ''header''] example_page
     = [\<lparr>classes = [''nav-link'', ''text-gray-900''], data_page = Some ''home'',
               aria_current = None, inside = None\<rparr>,
              \<lparr>classes = [''nav-link'', ''text-gray-900''], data_page = Some ''about'',
               aria_current = None, inside = None\<rparr>,
              \<lparr>classes = [''nav-link'', ''text-gray-900''], data_page = Some ''home'',
               aria_current = None, inside = Some ''#header-placeholder''\<rparr>,
              \<lparr>classes = [''nav-link'', ''text-gray-900''], data_page = Some ''about'',
               aria_current = None, inside = Some ''#header-placeholder''\<rparr>]"
    using example_settled_elements [of "[''footer'', ''header'']" NoHook] by (simp add: x)
  have n: "normalizedPath example_page = ''/pages/about/''"
    by (simp add: normalizedPath_def isEnglishPage_def replace_en_prefix_def startsWith_def
        example_page_def Let_def)
  have hl: "map (highlighted example_page)
              (settled_elements example_network_header [''footer'', ''header''] example_page)
     = [\<lparr>classes = [''nav-link'', ''text-gray-900''], data_page = Some ''home'',
               aria_current = None, inside = None\<rparr>,
             \<lparr>classes = [''nav-link'', ''text-blue-600'', ''md:text-blue-600''],
               data_page = Some ''about'', aria_current = Some ''page'', inside = None\<rparr>,
             \<lparr>classes = [''nav-link'', ''text-gray-900''], data_page = Some ''home'',
               aria_current = None, inside = Some ''#header-placeholder''\<rparr>,
             \<lparr>classes = [''nav-link'', ''text-blue-600'', ''md:text-blue-600''],
               data_page = Some ''about'', aria_current = Some ''page'',
               inside = Some ''#header-placeholder''\<rparr>]"
    by (simp add: el highlighted_def n nav_link_def highlight_link_def isActive_def
        activate_def classList_add_def classList_remove_def startsWith_def)
  show ?thesis
    using loadAll_post_steps_once [OF d s, of example_network_header example_page] i f r
    by (auto simp: se st hl components_def page_of_def)
qed

text \<open>
  C3, as stated, fails: with a library hook that throws, everything else as above,
  \<open>loadAll\<close> throws after the requests have settled and the links are left as they
  were injected, although the page is \<open>/en/pages/about/\<close>: the second post-step has not
  run.
\<close>

theorem loadAll_post_steps_once_counterexample:
  "every_request_settles example_network_header (example_page\<lparr>flowbite := HookThrows\<rparr>)
   \<and> loadAll example_network_header [''footer'', ''header''] (example_page\<lparr>flowbite := HookThrows\<rparr>)
       = Threw (page_of (loadAll example_network_header [''footer'', ''header'']
                  (example_page\<lparr>flowbite := HookThrows\<rparr>)))
   \<and> elements (page_of (loadAll example_network_header [''footer'', ''header'']
                  (example_page\<lparr>flowbite := HookThrows\<rparr>)))
       = [\<lparr>classes = [''nav-link'', ''text-gray-900''], data_page = Some ''home'',
               aria_current = None, inside = None\<rparr>,
              \<lparr>classes = [''nav-link'', ''text-gray-900''], data_page = Some ''about'',
               aria_current = None, inside = None\<rparr>,
              \<lparr>classes = [''nav-link'', ''text-gray-900''], data_page = Some ''home'',
               aria_current = None, inside = Some ''#header-placeholder''\<rparr>,
              \<lparr>classes = [''nav-link'', ''text-gray-900''], data_page = Some ''about'',
               aria_current = None, inside = Some ''#header-placeholder''\<rparr>]
   \<and> isActive (normalizedPath (example_page\<lparr>flowbite := HookThrows\<rparr>)) ''about''"
proof -
  let ?pg = "example_page\<lparr>flowbite := HookThrows\<rparr>"
  have sub: "set [''footer'', ''header''] \<subseteq> set Object_keys"
    by (simp add: Object_keys_def components_def)
  have e: "every_request_settles example_network_header ?pg" by (rule example_injected)
  have f: "flowbite ?pg = HookThrows" by simp
  have el: "settled_elements example_network_header [''footer'', ''header''] ?pg
     = [\<lparr>classes = [''nav-link'', ''text-gray-900''], data_page = Some ''home'',
               aria_current = None, inside = None\<rparr>,
              \<lparr>classes = [''nav-link'', ''text-gray-900''], data_page = Some ''about'',
               aria_current = None, inside = None\<rparr>,
              \<lparr>classes = [''nav-link'', ''text-gray-900''], data_page = Some ''home'',
               aria_current = None, inside = Some ''#header-placeholder''\<rparr>,
              \<lparr>classes = [''nav-link'', ''text-gray-900''], data_page = Some ''about'',
               aria_current = None, inside = Some ''#header-placeholder''\<rparr>]"
    using example_settled_elements [of "[''footer'', ''header'']" HookThrows] by simp
  have n: "isActive (normalizedPath ?pg) ''about''"
    by (simp add: normalizedPath_def isEnglishPage_def replace_en_prefix_def startsWith_def
        example_page_def isActive_def Let_def)
  have l: "loadAll example_network_header [''footer'', ''header''] ?pg
             = Threw (page_of (loadAll example_network_header [''footer'', ''header''] ?pg))"
    by (simp add: loadAll_threw [OF sub e f] page_of_def)
  have "elements (page_of (loadAll example_network_header [''footer'', ''header''] ?pg))
          = elements (fold (settle_one example_network_header ?pg) [''footer'', ''header'']
              (started ?pg))"
    by (simp add: loadAll_threw [OF sub e f] page_of_def)
  also have "\<dots> = settled_elements example_network_header [''footer'', ''header''] ?pg"
    by (rule settled_elements_eq)
  finally show ?thesis
    using e n l by (simp only: el)
qed


lemma normalizedPath_eq:
  "normalizedPath pg =
     (if startsWith (pathname pg) ''/en/'' then drop 3 (pathname pg)
      else if pathname pg = ''/en'' then ''/''
      else pathname pg)"
proof (cases "startsWith (pathname pg) ''/en/''")
  case True
  then obtain r where "pathname pg = ''/en/'' @ r" using startsWith_en_split by blast
  then show ?thesis
    by (simp add: normalizedPath_def isEnglishPage_def replace_en_prefix_def startsWith_Cons
        Let_def)
next
  case False
  then show ?thesis
    by (simp add: normalizedPath_def isEnglishPage_def replace_en_prefix_def startsWith_Cons
        Let_def)
qed

text \<open>
  C4, as the code has it.  The normalised path is the current path without its \<open>/en\<close>
  when the path lies under \<open>/en/\<close>, the root \<open>/\<close> when the path is \<open>/en\<close>, and the
  current path itself otherwise.  A navigation element tagged with the identifier
  \<open>pageId\<close> is activated (the active classes and \<open>aria-current="page"\<close>) exactly when
  \<open>pageId\<close> is \<open>home\<close> and the normalised path is \<open>/\<close> or \<open>/index.html\<close>, or \<open>pageId\<close>
  is not empty and the normalised path contains \<open>/pages/pageId/\<close>; otherwise it is
  left as it was.
\<close>

theorem highlightActiveNav_marks:
  assumes "i < length (elements pg)" and "nav_link (elements pg ! i)"
    and "data_page (elements pg ! i) = Some pageId"
  shows "normalizedPath pg
           = (if startsWith (pathname pg) ''/en/'' then drop 3 (pathname pg)
              else if pathname pg = ''/en'' then ''/''
              else pathname pg)
         \<and> elements (highlightActiveNav pg) ! i
           = (if (pageId = ''home''
                  \<and> (normalizedPath pg = ''/'' \<or> normalizedPath pg = ''/index.html''))
                 \<or> (pageId \<noteq> []
                    \<and> (\<exists>pre post. normalizedPath pg = pre @ (''/pages/'' @ pageId @ ''/'') @ post))
              then activate (elements pg ! i) else elements pg ! i)
         \<and> is_active (activate (elements pg ! i))
         \<and> (\<not> is_active (elements pg ! i) \<longrightarrow>
              (is_active (elements (highlightActiveNav pg) ! i) \<longleftrightarrow>
                 (pageId = ''home''
                  \<and> (normalizedPath pg = ''/'' \<or> normalizedPath pg = ''/index.html''))
                 \<or> (pageId \<noteq> []
                    \<and> (\<exists>pre post. normalizedPath pg = pre @ (''/pages/'' @ pageId @ ''/'') @ post))))"
proof -
  have "elements (highlightActiveNav pg) ! i
          = (if isActive (normalizedPath pg) pageId then activate (elements pg ! i)
             else elements pg ! i)"
    using assms by (simp add: highlightActiveNav_def Let_def highlight_link_def)
  moreover have "isActive (normalizedPath pg) pageId
          = ((pageId = ''home''
                  \<and> (normalizedPath pg = ''/'' \<or> normalizedPath pg = ''/index.html''))
                 \<or> (pageId \<noteq> []
                    \<and> (\<exists>pre post. normalizedPath pg = pre @ (''/pages/'' @ pageId @ ''/'') @ post)))"
    unfolding isActive_def includes_str_iff by auto
  ultimately show ?thesis
    using is_active_activate [of "elements pg ! i"] normalizedPath_eq [of pg] by auto
qed

text \<open>
  On \<open>/en/pages/about/\<close> the normalised path is \<open>/pages/about/\<close>, the element tagged
  \<open>about\<close> is activated and \<open>home\<close> is left alone; on \<open>/\<close>, on \<open>/en/\<close> and on \<open>/en\<close> the
  normalised path is \<open>/\<close> and the element tagged \<open>home\<close> is activated.
\<close>

theorem highlightActiveNav_marks_witness:
  "normalizedPath example_page = ''/pages/about/''
   \<and> elements (highlightActiveNav example_page) ! 1 = activate (elements example_page ! 1)
   \<and> elements (highlightActiveNav example_page) ! 0 = elements example_page ! 0
   \<and> \<not> is_active (elements (highlightActiveNav example_page) ! 0)
   \<and> is_active (elements (highlightActiveNav example_page) ! 1)
   \<and> is_active (elements (highlightActiveNav (example_page\<lparr>pathname := ''/''\<rparr>)) ! 0)
   \<and> normalizedPath (example_page\<lparr>pathname := ''/en/''\<rparr>) = ''/''
   \<and> is_active (elements (highlightActiveNav (example_page\<lparr>pathname := ''/en/''\<rparr>)) ! 0)
   \<and> normalizedPath (example_page\<lparr>pathname := ''/en''\<rparr>) = ''/''
   \<and> is_active (elements (highlightActiveNav (example_page\<lparr>pathname := ''/en''\<rparr>)) ! 0)"
proof -
  let ?root = "example_page\<lparr>pathname := ''/''\<rparr>"
  let ?en = "example_page\<lparr>pathname := ''/en/''\<rparr>"
  let ?bare = "example_page\<lparr>pathname := ''/en''\<rparr>"
  have p: "pathname example_page = ''/en/pages/about/''" by (simp add: example_page_def)
  have i0: "0 < length (elements example_page)" "nav_link (elements example_page ! 0)"
    "data_page (elements example_page ! 0) = Some ''home''"
    "\<not> is_active (elements example_page ! 0)"
    by (simp_all add: example_page_def nav_link_def is_active_def)
  have i1: "1 < length (elements example_page)" "nav_link (elements example_page ! 1)"
    "data_page (elements example_page ! 1) = Some ''about''"
    "\<not> is_active (elements example_page ! 1)"
    by (simp_all add: example_page_def nav_link_def is_active_def)
  have r0: "0 < length (elements ?root)" "nav_link (elements ?root ! 0)"
    "data_page (elements ?root ! 0) = Some ''home''" "\<not> is_active (elements ?root ! 0)"
    by (simp_all add: example_page_def nav_link_def is_active_def)
  have e0: "0 < length (elements ?en)" "nav_link (elements ?en ! 0)"
    "data_page (elements ?en ! 0) = Some ''home''" "\<not> is_active (elements ?en ! 0)"
    by (simp_all add: example_page_def nav_link_def is_active_def)
  have b0: "0 < length (elements ?bare)" "nav_link (elements ?bare ! 0)"
    "data_page (elements ?bare ! 0) = Some ''home''" "\<not> is_active (elements ?bare ! 0)"
    by (simp_all add: example_page_def nav_link_def is_active_def)
  have inc: "includes_str ''/pages/about/'' (''/pages/'' @ ''about'' @ ''/'')"
    "\<not> includes_str ''/pages/about/'' (''/pages/'' @ ''home'' @ ''/'')"
    by (simp_all add: startsWith_def)
  have ex: "\<exists>pre post. ''/pages/about/'' = pre @ (''/pages/'' @ ''about'' @ ''/'') @ post"
    "\<not> (\<exists>pre post. ''/pages/about/'' = pre @ (''/pages/'' @ ''home'' @ ''/'') @ post)"
    using inc [unfolded includes_str_iff] by blast+
  have a: "normalizedPath example_page = ''/pages/about/''"
    using highlightActiveNav_marks [OF i0(1) i0(2) i0(3)] by (simp add: p startsWith_def)
  have b: "normalizedPath ?root = ''/''"
    using highlightActiveNav_marks [OF r0(1) r0(2) r0(3)] by (simp add: startsWith_def)
  have c: "normalizedPath ?en = ''/''"
    using highlightActiveNav_marks [OF e0(1) e0(2) e0(3)] by (simp add: startsWith_def)
  have d: "normalizedPath ?bare = ''/''"
    using highlightActiveNav_marks [OF b0(1) b0(2) b0(3)] by (simp add: startsWith_def)
  have "elements (highlightActiveNav example_page) ! 1 = activate (elements example_page ! 1)
   \<and> elements (highlightActiveNav example_page) ! 0 = elements example_page ! 0
   \<and> \<not> is_active (elements (highlightActiveNav example_page) ! 0)
   \<and> is_active (elements (highlightActiveNav example_page) ! 1)"
    using highlightActiveNav_marks [OF i0(1) i0(2) i0(3)]
      highlightActiveNav_marks [OF i1(1) i1(2) i1(3)] i0(4) i1(4) ex
    by (simp add: a)
  moreover have "is_active (elements (highlightActiveNav ?root) ! 0)"
    using highlightActiveNav_marks [OF r0(1) r0(2) r0(3)] r0(4) by (simp add: b)
  moreover have "is_active (elements (highlightActiveNav ?en) ! 0)"
    using highlightActiveNav_marks [OF e0(1) e0(2) e0(3)] e0(4) by (simp add: c)
  moreover have "is_active (elements (highlightActiveNav ?bare) ! 0)"
    using highlightActiveNav_marks [OF b0(1) b0(2) b0(3)] b0(4) by (simp add: d)
  ultimately show ?thesis using a c d by blast
qed


text \<open>
  C4, as stated, fails: on the path \<open>/index.html\<close> the element tagged \<open>home\<close> is
  activated, although the normalised path is not \<open>/\<close> and does not contain
  \<open>/pages/home/\<close>.
\<close>

theorem highlightActiveNav_marks_counterexample:
  "nav_link (elements (example_page\<lparr>pathname := ''/index.html''\<rparr>) ! 0)
   \<and> data_page (elements (example_page\<lparr>pathname := ''/index.html''\<rparr>) ! 0) = Some ''home''
   \<and> is_active (elements (highlightActiveNav (example_page\<lparr>pathname := ''/index.html''\<rparr>)) ! 0)
   \<and> \<not> is_active (elements (example_page\<lparr>pathname := ''/index.html''\<rparr>) ! 0)
   \<and> normalizedPath (example_page\<lparr>pathname := ''/index.html''\<rparr>) \<noteq> ''/''
   \<and> \<not> includes_str (normalizedPath (example_page\<lparr>pathname := ''/index.html''\<rparr>)) ''/pages/home/''"
  by (simp add: example_page_def nav_link_def highlightActiveNav_def highlight_link_def
      isActive_def normalizedPath_def isEnglishPage_def is_active_def activate_def
      classList_add_def classList_remove_def startsWith_def Let_def)

end
